theory Spec2Isabelle
  imports Main "HOL-Library.AList" "HOL-Library.Product_Lexorder" "HOL-Library.List_Lexorder"
begin

section \<open>QueueCTL: the job store, its claim protocol and the retry state machine\<close>

text \<open>
  A shallow embedding of \<^verbatim>\<open>queuectl/store.py\<close>, \<^verbatim>\<open>queuectl/config.py\<close> and of the
  job handling of \<^verbatim>\<open>queuectl/worker.py\<close>.

  The SQLite database is a value that each method takes and returns: the \<^verbatim>\<open>jobs\<close> table
  is the list of its rows in insertion order, the \<^verbatim>\<open>config\<close> table an association list.
  Every method of \<^verbatim>\<open>Store\<close> opens a connection, runs its statements in one transaction
  and commits, so one method call is one step on that value. An exception raised before
  the commit leaves the database as it was; such a call returns \<open>Inl\<close> of the error.

  Conventions of the embedding:
  \<^item> An \<^verbatim>\<open>INTEGER\<close> column and a Python \<^verbatim>\<open>int\<close> are an \<open>int\<close>; \<^verbatim>\<open>attempts\<close>, which the
    code only ever writes as \<open>0\<close> or \<open>attempts + 1\<close>, is a \<open>nat\<close>.
  \<^item> A \<^verbatim>\<open>datetime\<close> is an instant of the UTC time line: the number of microseconds (the
    resolution of \<^verbatim>\<open>datetime\<close>) since 0001-01-01T00:00:00. A \<^verbatim>\<open>datetime\<close> ends with the
    year 9999, and adding a \<^verbatim>\<open>timedelta\<close> that leads outside raises \<^verbatim>\<open>OverflowError\<close>:
    \<open>add_seconds\<close> below has that branch.
  \<^item> The columns \<^verbatim>\<open>created_at\<close>, \<^verbatim>\<open>updated_at\<close>, \<^verbatim>\<open>started_at\<close> and \<^verbatim>\<open>finished_at\<close> hold
    only what the store writes, the \<^verbatim>\<open>isoformat()\<close> text of its clock; they are kept as the
    instants themselves, whose order is the text order of those texts.
  \<^item> The column \<^verbatim>\<open>next_run_at\<close> is a text. \<^verbatim>\<open>mark_job_failed\<close> writes an \<^verbatim>\<open>isoformat()\<close> text
    into it, but \<^verbatim>\<open>enqueue_job\<close> stores the text of the producer as it comes, and
    \<^verbatim>\<open>claim_job\<close> compares the column with the \<^verbatim>\<open>isoformat()\<close> text of the clock as texts
    (SQLite's \<^verbatim>\<open>BINARY\<close> collation: the lexicographic order of the lists of code points).
  \<^item> Not part of the embedding: the 64-bit limit of an SQLite integer (binding a larger
    Python \<^verbatim>\<open>int\<close> raises) and lock contention between connections
    (\<^verbatim>\<open>sqlite3.OperationalError\<close>).
  \<^item> The clock is an input: a method takes the value that its call of
    \<^verbatim>\<open>datetime.now(timezone.utc)\<close> returned.
  \<^item> Text that the code only stores and tests for equality (ids, commands, configuration
    keys and values) is a \<open>string\<close>. Text that the code slices or orders (captured output,
    error messages, \<^verbatim>\<open>next_run_at\<close>) is a Python \<^verbatim>\<open>str\<close>: a list of Unicode code points.
\<close>

subsection \<open>Data model\<close>

type_synonym instant = int

type_synonym codepoint = nat

type_synonym pystr = "codepoint list"

text \<open>An ASCII literal as a Python \<^verbatim>\<open>str\<close>.\<close>

definition literal :: "string \<Rightarrow> pystr" where
  "literal cs = map of_char cs"

text \<open>The \<^verbatim>\<open>CHECK (state IN (...))\<close> constraint of the schema.\<close>

datatype job_state = Pending | Processing | Completed | Failed | Dead

text \<open>A row of the \<^verbatim>\<open>jobs\<close> table; the column \<^verbatim>\<open>id\<close> is the field \<open>job_id\<close>.\<close>

record job =
  job_id :: string
  command :: string
  state :: job_state
  attempts :: nat
  max_retries :: int
  created_at :: instant
  updated_at :: instant
  started_at :: "instant option"
  finished_at :: "instant option"
  result_code :: "int option"
  last_error :: "pystr option"
  next_run_at :: "pystr option"
  stdout :: "pystr option"
  stderr :: "pystr option"
  priority :: int

record store =
  jobs :: "job list"
  config :: "(string \<times> string) list"

subsection \<open>\<^verbatim>\<open>datetime.isoformat()\<close>\<close>

text \<open>
  The text that \<^verbatim>\<open>isoformat()\<close> gives for an instant: \<^verbatim>\<open>YYYY-MM-DDTHH:MM:SS\<close>, then
  \<^verbatim>\<open>.ffffff\<close> unless the microseconds are zero, then the UTC offset as \<^verbatim>\<open>+HH:MM\<close> or
  \<^verbatim>\<open>-HH:MM\<close>. \<open>ord2ymd\<close> follows \<^verbatim>\<open>_ord2ymd\<close> of \<^verbatim>\<open>datetime.py\<close>: the proleptic Gregorian date
  of a day number, day 1 being 0001-01-01. \<open>isoformat_at offset t\<close> is the text of the
  instant \<open>t\<close> on a clock that is \<open>offset\<close> minutes ahead of UTC; the store's own clock is
  \<^verbatim>\<open>datetime.now(timezone.utc)\<close>, offset 0.
\<close>

definition days_before_month :: "int \<Rightarrow> int" where
  "days_before_month m = [0, 0, 31, 59, 90, 120, 151, 181, 212, 243, 273, 304, 334] ! nat m"

definition days_in_month :: "int \<Rightarrow> int" where
  "days_in_month m = [0, 31, 28, 31, 30, 31, 30, 31, 31, 30, 31, 30, 31] ! nat m"

definition ord2ymd :: "int \<Rightarrow> int \<times> int \<times> int" where
  "ord2ymd ordinal =
    (let n = ordinal - 1;
         n400 = n div 146097; n = n mod 146097;
         year = n400 * 400 + 1;
         n100 = n div 36524; n = n mod 36524;
         n4 = n div 1461; n = n mod 1461;
         n1 = n div 365; n = n mod 365;
         year = year + n100 * 100 + n4 * 4 + n1
     in if n1 = 4 \<or> n100 = 4 then (year - 1, 12, 31)
        else
          (let leapyear = (n1 = 3 \<and> (n4 \<noteq> 24 \<or> n100 = 3));
               month = (n + 50) div 32;
               preceding = days_before_month month + (if month > 2 \<and> leapyear then 1 else 0)
           in if preceding > n
              then (year, month - 1,
                    n - (preceding - (days_in_month (month - 1)
                                      + (if month - 1 = 2 \<and> leapyear then 1 else 0))) + 1)
              else (year, month, n - preceding + 1)))"

definition digit :: "int \<Rightarrow> codepoint" where
  "digit n = nat (48 + n mod 10)"

definition d2 :: "int \<Rightarrow> pystr" where
  "d2 n = [digit (n div 10), digit n]"

definition d4 :: "int \<Rightarrow> pystr" where
  "d4 n = d2 (n div 100) @ d2 n"

definition d6 :: "int \<Rightarrow> pystr" where
  "d6 n = d2 (n div 10000) @ d4 n"

definition isoformat_at :: "int \<Rightarrow> instant \<Rightarrow> pystr" where
  "isoformat_at offset t =
    (let local = t + offset * 60000000;
         microsecond = local mod 1000000;
         seconds = local div 1000000;
         (year, month, day) = ord2ymd (seconds div 86400 + 1)
     in d4 year @ literal ''-'' @ d2 month @ literal ''-'' @ d2 day @ literal ''T''
        @ d2 (seconds div 3600 mod 24) @ literal '':'' @ d2 (seconds div 60 mod 60)
        @ literal '':'' @ d2 (seconds mod 60)
        @ (if microsecond = 0 then [] else literal ''.'' @ d6 microsecond)
        @ (if offset < 0 then literal ''-'' else literal ''+'')
        @ d2 (\<bar>offset\<bar> div 60) @ literal '':'' @ d2 (\<bar>offset\<bar> mod 60))"

definition isoformat :: "instant \<Rightarrow> pystr" where
  "isoformat t = isoformat_at 0 t"

subsection \<open>The database\<close>

text \<open>The database after \<^verbatim>\<open>init_db\<close> on a fresh file: both tables exist and are empty.\<close>

definition init_db :: store where
  "init_db = \<lparr>jobs = [], config = []\<rparr>"

text \<open>\<^verbatim>\<open>id TEXT PRIMARY KEY\<close>: no two rows share an id.\<close>

definition primary_key :: "store \<Rightarrow> bool" where
  "primary_key s \<longleftrightarrow> distinct (map job_id (jobs s))"

subsection \<open>Configuration (\<^verbatim>\<open>config.py\<close>, \<^verbatim>\<open>Store.set_config\<close>, \<^verbatim>\<open>Store.get_config\<close>)\<close>

definition DEFAULTS :: "(string \<times> string) list" where
  "DEFAULTS =
    [(''max_retries'', ''3''),
     (''backoff_base'', ''2''),
     (''worker_poll_interval'', ''1''),
     (''db_path'', ''./data/queuectl.db'')]"

definition KEY_MAPPING :: "(string \<times> string) list" where
  "KEY_MAPPING =
    [(''max-retries'', ''max_retries''),
     (''backoff-base'', ''backoff_base''),
     (''worker-poll-interval'', ''worker_poll_interval''),
     (''db-path'', ''db_path'')]"

definition normalize_config_key :: "string \<Rightarrow> string" where
  "normalize_config_key key =
    (case map_of KEY_MAPPING key of Some k \<Rightarrow> k | None \<Rightarrow> key)"

text \<open>\<^verbatim>\<open>INSERT OR REPLACE INTO config (key, value)\<close>, the key being the primary key.\<close>

definition set_config :: "string \<Rightarrow> string \<Rightarrow> store \<Rightarrow> store" where
  "set_config key v s = s\<lparr>config := AList.update key v (config s)\<rparr>"

text \<open>\<^verbatim>\<open>Store.get_config\<close>: the stored value, \<open>None\<close> when the key has no row.\<close>

definition store_get_config :: "store \<Rightarrow> string \<Rightarrow> string option" where
  "store_get_config s key = map_of (config s) key"

text \<open>\<^verbatim>\<open>config.get_config\<close>: normalise, read the store, fall back to \<open>DEFAULTS\<close>.\<close>

definition get_config :: "store \<Rightarrow> string \<Rightarrow> string option" where
  "get_config s key =
    (let normalized_key = normalize_config_key key in
     case store_get_config s normalized_key of
       None \<Rightarrow> map_of DEFAULTS normalized_key
     | Some v \<Rightarrow> Some v)"

subsection \<open>SQL statements on the \<^verbatim>\<open>jobs\<close> table\<close>

text \<open>
  \<^verbatim>\<open>UPDATE jobs SET ... WHERE ...\<close>: every row that satisfies the condition is rewritten,
  the others stay; \<open>rowcount\<close> is the number of rows the condition matches.
\<close>

definition update_where :: "(job \<Rightarrow> bool) \<Rightarrow> (job \<Rightarrow> job) \<Rightarrow> job list \<Rightarrow> job list" where
  "update_where cond upd rows = map (\<lambda>r. if cond r then upd r else r) rows"

definition rowcount :: "(job \<Rightarrow> bool) \<Rightarrow> job list \<Rightarrow> nat" where
  "rowcount cond rows = length (filter cond rows)"

text \<open>\<^verbatim>\<open>SELECT ... FROM jobs WHERE id = ?\<close> followed by \<^verbatim>\<open>fetchone()\<close>.\<close>

definition fetch_by_id :: "string \<Rightarrow> job list \<Rightarrow> job option" where
  "fetch_by_id jid rows = find (\<lambda>r. job_id r = jid) rows"

subsection \<open>Errors\<close>

text \<open>
  \<open>IntegrityError\<close> is \<^verbatim>\<open>sqlite3.IntegrityError\<close> (a second row with an existing primary
  key), \<open>OverflowError\<close> the error of \<^verbatim>\<open>datetime\<close> arithmetic. \<open>NotFound\<close> and \<open>NotInDLQ\<close> are the two \<^verbatim>\<open>ValueError\<close>s of \<^verbatim>\<open>retry_job\<close>, told apart
  by their message: \<^verbatim>\<open>"Job ... not found"\<close> and
  \<^verbatim>\<open>"Job ... is not in DLQ (current state: ...)"\<close>.
\<close>

datatype store_error = IntegrityError | OverflowError | NotFound | NotInDLQ job_state

subsection \<open>\<^verbatim>\<open>Store.enqueue_job\<close>\<close>

text \<open>
  The arguments are the entries of \<^verbatim>\<open>job_data\<close>: \<^verbatim>\<open>id\<close>, \<^verbatim>\<open>command\<close>, and the optional
  \<^verbatim>\<open>max_retries\<close> (default 3), \<^verbatim>\<open>next_run_at\<close> and \<^verbatim>\<open>priority\<close> (default 0). The columns
  that the \<^verbatim>\<open>INSERT\<close> does not name are null.
\<close>

definition enqueue_job ::
  "instant \<Rightarrow> string \<Rightarrow> string \<Rightarrow> int option \<Rightarrow> pystr option \<Rightarrow> int option \<Rightarrow> store
    \<Rightarrow> store_error + store" where
  "enqueue_job now jid cmd retries run_at prio s =
    (if jid \<in> set (map job_id (jobs s)) then Inl IntegrityError
     else Inr (s\<lparr>jobs := jobs s @
       [\<lparr>job_id = jid, command = cmd, state = Pending, attempts = 0,
         max_retries = (case retries of None \<Rightarrow> 3 | Some m \<Rightarrow> m),
         created_at = now, updated_at = now, started_at = None, finished_at = None,
         result_code = None, last_error = None, next_run_at = run_at,
         stdout = None, stderr = None,
         priority = (case prio of None \<Rightarrow> 0 | Some p \<Rightarrow> p)\<rparr>]\<rparr>))"

subsection \<open>\<^verbatim>\<open>Store.claim_job\<close>\<close>

text \<open>
  The \<^verbatim>\<open>WHERE\<close> clause of the selection. Its parameter is \<^verbatim>\<open>now\<close>, the \<^verbatim>\<open>isoformat()\<close> text of
  the clock, and \<^verbatim>\<open>next_run_at <= ?\<close> compares two texts.
\<close>

definition claimable :: "instant \<Rightarrow> job \<Rightarrow> bool" where
  "claimable now r \<longleftrightarrow>
    state r = Pending
    \<and> (case next_run_at r of None \<Rightarrow> True | Some t \<Rightarrow> t \<le> isoformat now)"

text \<open>
  \<^verbatim>\<open>ORDER BY priority DESC, created_at ASC LIMIT 1\<close>: the rows are sorted on the pair
  \<open>(- priority, created_at)\<close>, ordered lexicographically, and the first one is taken.
  Rows that agree on both keys keep their table order (SQLite promises no order there).
\<close>

definition select_claimable :: "instant \<Rightarrow> job list \<Rightarrow> string option" where
  "select_claimable now rows =
    (case sort_key (\<lambda>r. (- priority r, created_at r)) (filter (claimable now) rows) of
       [] \<Rightarrow> None
     | r # _ \<Rightarrow> Some (job_id r))"

text \<open>The conditional update: its \<^verbatim>\<open>WHERE id = ? AND state='pending'\<close> and its \<^verbatim>\<open>SET\<close>.\<close>

definition claim_where :: "string \<Rightarrow> job \<Rightarrow> bool" where
  "claim_where jid r \<longleftrightarrow> job_id r = jid \<and> state r = Pending"

definition claim_set :: "instant \<Rightarrow> job \<Rightarrow> job" where
  "claim_set now r =
    r\<lparr>state := Processing, attempts := attempts r + 1, started_at := Some now,
      updated_at := now\<rparr>"

text \<open>
  The second half of \<^verbatim>\<open>claim_job\<close>, from \<^verbatim>\<open>job_id = row["id"]\<close> on: the conditional
  update, the rollback when it matched no row, the read-back of the full row.
\<close>

definition claim_selected :: "instant \<Rightarrow> string \<Rightarrow> store \<Rightarrow> job option \<times> store" where
  "claim_selected now jid s =
    (if rowcount (claim_where jid) (jobs s) = 0 then (None, s)
     else
       (let s' = s\<lparr>jobs := update_where (claim_where jid) (claim_set now) (jobs s)\<rparr>
        in (fetch_by_id jid (jobs s'), s')))"

text \<open>
  \<^verbatim>\<open>claim_job\<close>. Its \<^verbatim>\<open>except sqlite3.OperationalError\<close> branch (another connection holds
  the lock) rolls back and returns no job; with one connection at a time it does not run.
\<close>

definition claim_job :: "instant \<Rightarrow> store \<Rightarrow> job option \<times> store" where
  "claim_job now s =
    (case select_claimable now (jobs s) of
       None \<Rightarrow> (None, s)
     | Some jid \<Rightarrow> claim_selected now jid s)"

subsection \<open>\<^verbatim>\<open>Store.mark_job_completed\<close> and \<^verbatim>\<open>Store.mark_job_failed\<close>\<close>

text \<open>
  \<^verbatim>\<open>x[:n] if x else None\<close>: \<^verbatim>\<open>None\<close> and the empty text give \<^verbatim>\<open>None\<close>, any other text its
  first \<open>n\<close> code points.
\<close>

definition head_slice :: "nat \<Rightarrow> pystr option \<Rightarrow> pystr option" where
  "head_slice n x =
    (case x of None \<Rightarrow> None | Some t \<Rightarrow> if t = [] then None else Some (take n t))"

definition mark_job_completed ::
  "instant \<Rightarrow> string \<Rightarrow> int \<Rightarrow> pystr option \<Rightarrow> pystr option \<Rightarrow> store \<Rightarrow> store" where
  "mark_job_completed now jid code out err s =
    (let truncated_stdout = head_slice 10000 out;
         truncated_stderr = head_slice 10000 err
     in s\<lparr>jobs := update_where (\<lambda>r. job_id r = jid)
          (\<lambda>r. r\<lparr>state := Completed, result_code := Some code, finished_at := Some now,
                 updated_at := now, stdout := truncated_stdout, stderr := truncated_stderr\<rparr>)
          (jobs s)\<rparr>)"

text \<open>
  \<^verbatim>\<open>t + timedelta(seconds=d)\<close> for an integer \<open>d\<close>. The last instant of \<^verbatim>\<open>datetime\<close> is
  9999-12-31T23:59:59.999999, the last microsecond of day 3652059; a sum before the first
  or after the last instant raises \<^verbatim>\<open>OverflowError\<close> (for a large \<open>d\<close> already in
  \<^verbatim>\<open>timedelta(seconds=d)\<close>, whose own range is wider than that of \<^verbatim>\<open>datetime\<close>).
\<close>

definition max_instant :: instant where
  "max_instant = 3652059 * 86400 * 1000000 - 1"

definition add_seconds :: "instant \<Rightarrow> int \<Rightarrow> store_error + instant" where
  "add_seconds t d =
    (let u = t + d * 1000000
     in if 0 \<le> u \<and> u \<le> max_instant then Inr u else Inl OverflowError)"

text \<open>
  The clock is read twice: \<open>now\<close> at the head of the method, \<open>now_retry\<close> on the retry
  path, where \<^verbatim>\<open>next_run\<close> is computed. That computation comes before the \<^verbatim>\<open>UPDATE\<close>, so
  when it raises nothing has been written.
\<close>

definition mark_job_failed ::
  "instant \<Rightarrow> instant \<Rightarrow> string \<Rightarrow> int \<Rightarrow> pystr \<Rightarrow> int \<Rightarrow> int \<Rightarrow> nat \<Rightarrow> pystr option
    \<Rightarrow> pystr option \<Rightarrow> store \<Rightarrow> store_error + store" where
  "mark_job_failed now now_retry jid code error retries backoff_base attempts_so_far out err s =
    (let truncated_error = head_slice 2000 (Some error);
         truncated_stdout = head_slice 10000 out;
         truncated_stderr = head_slice 10000 err
     in
       if int attempts_so_far \<ge> retries then
         Inr (s\<lparr>jobs := update_where (\<lambda>r. job_id r = jid)
           (\<lambda>r. r\<lparr>state := Dead, result_code := Some code, last_error := truncated_error,
                  finished_at := Some now, updated_at := now,
                  stdout := truncated_stdout, stderr := truncated_stderr\<rparr>)
           (jobs s)\<rparr>)
       else
         (let delay_seconds = backoff_base ^ attempts_so_far
          in case add_seconds now_retry delay_seconds of
               Inl e \<Rightarrow> Inl e
             | Inr next_run \<Rightarrow>
                 Inr (s\<lparr>jobs := update_where (\<lambda>r. job_id r = jid)
                   (\<lambda>r. r\<lparr>state := Pending, result_code := Some code,
                          last_error := truncated_error,
                          next_run_at := Some (isoformat next_run), updated_at := now,
                          stdout := truncated_stdout, stderr := truncated_stderr\<rparr>)
                   (jobs s)\<rparr>)))"

subsection \<open>\<^verbatim>\<open>Store.retry_job\<close>\<close>

definition retry_job :: "instant \<Rightarrow> string \<Rightarrow> int option \<Rightarrow> store \<Rightarrow> store_error + store" where
  "retry_job now jid retries s =
    (case fetch_by_id jid (jobs s) of
       None \<Rightarrow> Inl NotFound
     | Some row \<Rightarrow>
         if state row \<noteq> Dead then Inl (NotInDLQ (state row))
         else
           (case retries of
              Some m \<Rightarrow>
                Inr (s\<lparr>jobs := update_where (\<lambda>r. job_id r = jid)
                  (\<lambda>r. r\<lparr>state := Pending, attempts := 0, max_retries := m,
                         next_run_at := None, updated_at := now\<rparr>)
                  (jobs s)\<rparr>)
            | None \<Rightarrow>
                Inr (s\<lparr>jobs := update_where (\<lambda>r. job_id r = jid)
                  (\<lambda>r. r\<lparr>state := Pending, attempts := 0,
                         next_run_at := None, updated_at := now\<rparr>)
                  (jobs s)\<rparr>)))"

subsection \<open>The worker's job handling (\<^verbatim>\<open>Worker._execute_job\<close>, \<^verbatim>\<open>Worker.run\<close>)\<close>

text \<open>
  The dictionary that \<^verbatim>\<open>execute_job_command\<close> returns; its key \<^verbatim>\<open>output\<close> is the field
  \<open>output_str\<close>.
\<close>

record exec_result =
  success :: bool
  exit_code :: int
  output_str :: pystr
  error :: "pystr option"

text \<open>\<^verbatim>\<open>str(n)\<close> of an integer.\<close>

fun digits :: "nat \<Rightarrow> pystr" where
  "digits n = (if n < 10 then [48 + n] else digits (n div 10) @ [48 + n mod 10])"

definition str_int :: "int \<Rightarrow> pystr" where
  "str_int i = (if i < 0 then 45 # digits (nat (- i)) else digits (nat i))"

text \<open>
  \<^verbatim>\<open>_execute_job\<close>, given what \<^verbatim>\<open>execute_job_command(command)\<close> returned and the integer
  that \<^verbatim>\<open>get_config_int(self.store, "backoff_base")\<close> returned. The job is the dictionary
  that \<^verbatim>\<open>claim_job\<close> returned; its \<^verbatim>\<open>attempts\<close> and \<^verbatim>\<open>max_retries\<close> are passed on as read.

  In the \<^verbatim>\<open>try\<close> block only \<^verbatim>\<open>mark_job_failed\<close> can raise. The \<^verbatim>\<open>except\<close> block then calls
  \<^verbatim>\<open>mark_job_failed\<close> again, with exit code 1 and \<^verbatim>\<open>str(e)\<close> as the error and as stderr;
  \<open>exc_text\<close> is that text, and \<open>now2\<close>, \<open>now2_retry\<close> are the clock values of the second
  call. When the second call raises too, the exception leaves \<^verbatim>\<open>_execute_job\<close>.
\<close>

definition execute_job ::
  "instant \<Rightarrow> instant \<Rightarrow> instant \<Rightarrow> instant \<Rightarrow> pystr \<Rightarrow> int \<Rightarrow> exec_result \<Rightarrow> job
    \<Rightarrow> store \<Rightarrow> store_error + store" where
  "execute_job now now_retry now2 now2_retry exc_text configured_base result job s =
    (let out = output_str result; err = error result;
         backoff_base = (if configured_base \<le> 0 then 2 else configured_base)
     in
       if success result then
         Inr (mark_job_completed now (job_id job) (exit_code result) (Some out) err s)
       else
         (let error_msg =
                (if err \<noteq> None \<and> err \<noteq> Some [] then the err
                 else if out \<noteq> [] then out
                 else literal ''Command failed with exit code '' @ str_int (exit_code result))
          in case mark_job_failed now now_retry (job_id job) (exit_code result) error_msg
                    (max_retries job) backoff_base (attempts job) (Some out) err s of
               Inr s' \<Rightarrow> Inr s'
             | Inl e \<Rightarrow>
                 mark_job_failed now2 now2_retry (job_id job) 1 exc_text
                   (max_retries job) backoff_base (attempts job) None (Some exc_text) s))"

text \<open>A call that raises has committed nothing.\<close>

definition committed :: "store \<Rightarrow> store_error + store \<Rightarrow> store" where
  "committed s res = (case res of Inl e \<Rightarrow> s | Inr s' \<Rightarrow> s')"

text \<open>
  One round of the loop of \<^verbatim>\<open>Worker.run\<close>: claim, and when a job came back, handle it;
  the loop catches what \<^verbatim>\<open>_execute_job\<close> raises and goes on. \<open>result_of\<close> stands for the
  executor: what running a command returns.
\<close>

definition worker_round ::
  "instant \<Rightarrow> instant \<Rightarrow> instant \<Rightarrow> instant \<Rightarrow> instant \<Rightarrow> pystr \<Rightarrow> int
    \<Rightarrow> (string \<Rightarrow> exec_result) \<Rightarrow> store \<Rightarrow> store" where
  "worker_round now_claim now now_retry now2 now2_retry exc_text configured_base result_of s =
    (case claim_job now_claim s of
       (None, s') \<Rightarrow> s'
     | (Some job, s') \<Rightarrow>
         committed s'
           (execute_job now now_retry now2 now2_retry exc_text configured_base
              (result_of (command job)) job s'))"

subsection \<open>The store as a transition system\<close>

text \<open>
  The calls that write: one constructor per writing method of \<^verbatim>\<open>Store\<close>, with the
  method's arguments and the clock values it reads. The reading methods (\<^verbatim>\<open>get_job\<close>,
  \<^verbatim>\<open>list_jobs\<close>, \<^verbatim>\<open>get_job_counts\<close>, \<^verbatim>\<open>get_config\<close>) run \<^verbatim>\<open>SELECT\<close> statements only, and
  \<^verbatim>\<open>init_db\<close> on an initialised database creates nothing.
\<close>

datatype op =
    Enqueue instant string string "int option" "pystr option" "int option"
  | Claim instant
  | MarkCompleted instant string int "pystr option" "pystr option"
  | MarkFailed instant instant string int pystr int int nat "pystr option" "pystr option"
  | Retry instant string "int option"
  | SetConfig string string

fun apply_op :: "op \<Rightarrow> store \<Rightarrow> store" where
  "apply_op (Enqueue now jid cmd retries run_at prio) s =
     committed s (enqueue_job now jid cmd retries run_at prio s)"
| "apply_op (Claim now) s = snd (claim_job now s)"
| "apply_op (MarkCompleted now jid code out err) s = mark_job_completed now jid code out err s"
| "apply_op (MarkFailed now now_retry jid code msg retries base att out err) s =
     committed s (mark_job_failed now now_retry jid code msg retries base att out err s)"
| "apply_op (Retry now jid retries) s = committed s (retry_job now jid retries s)"
| "apply_op (SetConfig key v) s = set_config key v s"

fun run_ops :: "op list \<Rightarrow> store \<Rightarrow> store" where
  "run_ops [] s = s"
| "run_ops (x # xs) s = run_ops xs (apply_op x s)"

text \<open>
  The number of successful claims of job \<open>jid\<close> since its insert or its last successful
  replay, counted along a run: a claim that returns the job adds one, an \<^verbatim>\<open>enqueue_job\<close>
  or \<^verbatim>\<open>retry_job\<close> of \<open>jid\<close> that succeeds starts from zero again.
\<close>

fun count_claim :: "string \<Rightarrow> op \<Rightarrow> store \<Rightarrow> nat \<Rightarrow> nat" where
  "count_claim jid (Claim now) s n =
     (case fst (claim_job now s) of
        Some job \<Rightarrow> if job_id job = jid then n + 1 else n
      | None \<Rightarrow> n)"
| "count_claim jid (Enqueue now i cmd retries run_at prio) s n =
     (case enqueue_job now i cmd retries run_at prio s of
        Inr s' \<Rightarrow> if i = jid then 0 else n
      | Inl e \<Rightarrow> n)"
| "count_claim jid (Retry now i retries) s n =
     (case retry_job now i retries s of
        Inr s' \<Rightarrow> if i = jid then 0 else n
      | Inl e \<Rightarrow> n)"
| "count_claim jid x s n = n"

fun claims_since :: "string \<Rightarrow> op list \<Rightarrow> store \<Rightarrow> nat \<Rightarrow> nat" where
  "claims_since jid [] s n = n"
| "claims_since jid (x # xs) s n = claims_since jid xs (apply_op x s) (count_claim jid x s n)"

text \<open>The size of a text in the database: the bytes of its UTF-8 encoding.\<close>

definition utf8_length :: "codepoint \<Rightarrow> nat" where
  "utf8_length c = (if c < 0x80 then 1 else if c < 0x800 then 2 else if c < 0x10000 then 3 else 4)"

definition byte_length :: "pystr \<Rightarrow> nat" where
  "byte_length t = sum_list (map utf8_length t)"

section \<open>Properties\<close>

subsection \<open>Configuration\<close>

text \<open>
  Claim C9. For each of the four recognised keys, \<^verbatim>\<open>get_config\<close> returns the documented
  default when the store has no entry for the key; \<^verbatim>\<open>set_config(k, v)\<close> followed by
  \<^verbatim>\<open>get_config(k)\<close> returns \<open>v\<close>; and the hyphen form of the key (a different text) is
  normalised to the key itself, so that it reads the same entry.
\<close>

theorem config_default_roundtrip_normalize:
  assumes "(k, d) \<in> {(''max_retries'', ''3''), (''backoff_base'', ''2''),
                      (''worker_poll_interval'', ''1''), (''db_path'', ''./data/queuectl.db'')}"
  shows "(store_get_config s k = None \<longrightarrow> get_config s k = Some d)
       \<and> get_config (set_config k v s) k = Some v
       \<and> (let h = map (\<lambda>c. if c = CHR ''_'' then CHR ''-'' else c) k
          in h \<noteq> k \<and> normalize_config_key h = k \<and> get_config s h = get_config s k)"
proof -
  let ?h = "map (\<lambda>c. if c = CHR ''_'' then CHR ''-'' else c) k"
  have norm: "normalize_config_key k = k"
    using assms by (auto simp: normalize_config_key_def KEY_MAPPING_def)
  have dflt: "map_of DEFAULTS k = Some d"
    using assms by (auto simp: DEFAULTS_def)
  have a: "store_get_config s k = None \<longrightarrow> get_config s k = Some d"
    by (simp add: get_config_def norm dflt)
  have b: "get_config (set_config k v s) k = Some v"
    by (simp add: get_config_def norm store_get_config_def set_config_def update_conv')
  have hy: "normalize_config_key ?h = k"
    using assms by (auto simp: normalize_config_key_def KEY_MAPPING_def)
  have ne: "?h \<noteq> k"
    using assms by auto
  have c: "get_config s ?h = get_config s k"
    by (simp add: get_config_def hy norm)
  show ?thesis using a b c hy ne by (simp add: Let_def)
qed

theorem config_default_roundtrip_normalize_witness:
  "store_get_config init_db ''max_retries'' = None
   \<and> get_config init_db ''max_retries'' = Some ''3''
   \<and> get_config (set_config ''max_retries'' ''5'' init_db) ''max_retries'' = Some ''5''
   \<and> get_config (set_config ''max_retries'' ''5'' init_db) ''max-retries'' = Some ''5''"
  using config_default_roundtrip_normalize [of "''max_retries''" "''3''" init_db "''5''"]
        config_default_roundtrip_normalize
          [of "''max_retries''" "''3''" "set_config ''max_retries'' ''5'' init_db" "''5''"]
  by (simp add: store_get_config_def init_db_def Let_def set_config_def)

subsection \<open>Rows, updates and the selection\<close>

lemma update_where_ids:
  assumes "\<And>r. job_id (upd r) = job_id r"
  shows "map job_id (update_where cond upd rows) = map job_id rows"
  using assms by (induction rows) (simp_all add: update_where_def)

lemma update_where_unmatched:
  "\<forall>r\<in>set rows. \<not> cond r \<Longrightarrow> update_where cond upd rows = rows"
  by (induction rows) (simp_all add: update_where_def)

lemma set_update_where:
  "set (update_where cond upd rows) = (\<lambda>r. if cond r then upd r else r) ` set rows"
  by (simp add: update_where_def)

lemma rowcount_zero: "rowcount cond rows = 0 \<longleftrightarrow> (\<forall>r\<in>set rows. \<not> cond r)"
  by (simp add: rowcount_def filter_empty_conv)

lemma fetch_by_id_None: "fetch_by_id jid rows = None \<longleftrightarrow> jid \<notin> job_id ` set rows"
  by (auto simp: fetch_by_id_def find_None_iff)

lemma fetch_by_id_Some:
  "fetch_by_id jid rows = Some r \<Longrightarrow> r \<in> set rows \<and> job_id r = jid"
  by (auto simp: fetch_by_id_def find_Some_iff)

lemma fetch_by_id_distinct:
  "distinct (map job_id rows) \<Longrightarrow> r \<in> set rows \<Longrightarrow> fetch_by_id (job_id r) rows = Some r"
  by (induction rows) (auto simp: fetch_by_id_def)

lemma distinct_ids_unique:
  "distinct (map job_id rows) \<Longrightarrow> r \<in> set rows \<Longrightarrow> r' \<in> set rows \<Longrightarrow> job_id r' = job_id r
    \<Longrightarrow> r' = r"
  by (induction rows) (auto simp: image_iff)

lemma sort_key_head:
  fixes f :: "'a \<Rightarrow> 'k::linorder"
  assumes "sort_key f xs = y # ys"
  shows "y \<in> set xs \<and> (\<forall>x\<in>set xs. f y \<le> f x)"
proof -
  have "set (y # ys) = set xs" using assms by (metis set_sort)
  moreover have "sorted (map f (y # ys))" using assms by (metis sorted_sort_key)
  ultimately show ?thesis by auto
qed

lemma select_claimable_None:
  "select_claimable now rows = None \<longleftrightarrow> (\<forall>r\<in>set rows. \<not> claimable now r)"
proof -
  have "sort_key (\<lambda>r. (- priority r, created_at r)) (filter (claimable now) rows) = []
        \<longleftrightarrow> filter (claimable now) rows = []"
    by (metis length_sort length_0_conv)
  then show ?thesis
    by (auto simp: select_claimable_def filter_empty_conv split: list.splits)
qed

lemma select_claimable_Some:
  assumes "select_claimable now rows = Some jid"
  shows "\<exists>r\<in>set rows. claimable now r \<and> job_id r = jid
          \<and> (\<forall>r'\<in>set rows. claimable now r' \<longrightarrow>
                priority r' < priority r
                \<or> (priority r' = priority r \<and> created_at r \<le> created_at r'))"
proof -
  from assms obtain y ys where
    srt: "sort_key (\<lambda>r. (- priority r, created_at r)) (filter (claimable now) rows) = y # ys"
    and jid: "job_id y = jid"
    by (auto simp: select_claimable_def split: list.splits)
  from sort_key_head [OF srt]
  have mem: "y \<in> set (filter (claimable now) rows)"
    and least: "\<forall>x\<in>set (filter (claimable now) rows).
        (- priority y, created_at y) \<le> (- priority x, created_at x)"
    by blast+
  have "\<forall>r'\<in>set rows. claimable now r' \<longrightarrow>
          priority r' < priority y \<or> (priority r' = priority y \<and> created_at y \<le> created_at r')"
  proof (intro ballI impI)
    fix r' assume "r' \<in> set rows" "claimable now r'"
    then have "(- priority y, created_at y) \<le> (- priority r', created_at r')"
      using least by simp
    then show "priority r' < priority y \<or> (priority r' = priority y \<and> created_at y \<le> created_at r')"
      by (auto simp: less_eq_prod_def)
  qed
  with mem jid show ?thesis by auto
qed


lemma claimable_claim_where: "claimable now r \<Longrightarrow> claim_where (job_id r) r"
  by (simp add: claimable_def claim_where_def)

lemma job_id_claim_set [simp]: "job_id (claim_set now r) = job_id r"
  by (simp add: claim_set_def)

lemma claim_selected_Some:
  assumes "r \<in> set (jobs s)" and "claim_where (job_id r) r" and "primary_key s"
  shows "claim_selected now (job_id r) s =
          (Some (claim_set now r),
           s\<lparr>jobs := update_where (claim_where (job_id r)) (claim_set now) (jobs s)\<rparr>)"
proof -
  let ?rows' = "update_where (claim_where (job_id r)) (claim_set now) (jobs s)"
  have cnt: "rowcount (claim_where (job_id r)) (jobs s) \<noteq> 0"
    using assms(1,2) by (auto simp: rowcount_zero)
  have ids: "map job_id ?rows' = map job_id (jobs s)"
    by (rule update_where_ids) simp
  have mem: "claim_set now r \<in> set ?rows'"
    using assms(1,2) by (force simp: set_update_where)
  have "distinct (map job_id ?rows')"
    using assms(3) ids by (simp add: primary_key_def)
  from fetch_by_id_distinct [OF this mem]
  have "fetch_by_id (job_id r) ?rows' = Some (claim_set now r)" by simp
  with cnt show ?thesis by (simp add: claim_selected_def Let_def)
qed

lemma claim_job_Some:
  assumes "claim_job now s = (Some j, s')" and "primary_key s"
  shows "\<exists>r\<in>set (jobs s). claimable now r \<and> j = claim_set now r
          \<and> s' = s\<lparr>jobs := update_where (claim_where (job_id r)) (claim_set now) (jobs s)\<rparr>
          \<and> (\<forall>r'\<in>set (jobs s). claimable now r' \<longrightarrow>
                priority r' < priority r
                \<or> (priority r' = priority r \<and> created_at r \<le> created_at r'))"
proof -
  from assms(1) obtain jid where sel: "select_claimable now (jobs s) = Some jid"
    and res: "claim_selected now jid s = (Some j, s')"
    by (auto simp: claim_job_def split: option.splits)
  from select_claimable_Some [OF sel] obtain r where
    r: "r \<in> set (jobs s)" "claimable now r" "job_id r = jid"
    and best: "\<forall>r'\<in>set (jobs s). claimable now r' \<longrightarrow>
                priority r' < priority r
                \<or> (priority r' = priority r \<and> created_at r \<le> created_at r')"
    by blast
  from claim_selected_Some [OF r(1) claimable_claim_where [OF r(2)] assms(2), of now] res r(3)
  have "j = claim_set now r"
    and "s' = s\<lparr>jobs := update_where (claim_where (job_id r)) (claim_set now) (jobs s)\<rparr>"
    by simp_all
  with r best show ?thesis by blast
qed

lemma claim_job_returns:
  assumes "r \<in> set (jobs s)" and "claimable now r" and "primary_key s"
  shows "\<exists>j s'. claim_job now s = (Some j, s')"
proof -
  from assms(1,2) have "select_claimable now (jobs s) \<noteq> None"
    by (auto simp: select_claimable_None)
  then obtain jid where sel: "select_claimable now (jobs s) = Some jid" by auto
  from select_claimable_Some [OF sel] obtain r' where
    r': "r' \<in> set (jobs s)" "claimable now r'" "job_id r' = jid" by blast
  from claim_selected_Some [OF r'(1) claimable_claim_where [OF r'(2)] assms(3), of now] sel r'(3)
  show ?thesis by (simp add: claim_job_def)
qed

lemma claim_job_None:
  assumes "\<forall>r\<in>set (jobs s). \<not> claimable now r"
  shows "claim_job now s = (None, s)"
  using assms by (simp add: claim_job_def select_claimable_None [THEN iffD2])

text \<open>
  The defining equations, for evaluating the operations on concrete stores, and the order
  of the \<^verbatim>\<open>isoformat()\<close> texts that the examples below compare.
\<close>

lemma isoformat_order_examples:
  "isoformat 2000003 \<le> isoformat 5000000"
  "isoformat 1000003 \<le> isoformat 2000000"
  "isoformat 3000001 \<le> isoformat 4000000"
  "isoformat 2000004 \<le> isoformat 3000000"
  by code_simp+

lemmas store_defs = isoformat_order_examples init_db_def enqueue_job_def committed_def claim_job_def claim_selected_def
  select_claimable_def claimable_def claim_where_def claim_set_def update_where_def rowcount_def
  fetch_by_id_def primary_key_def mark_job_completed_def mark_job_failed_def retry_job_def
  head_slice_def add_seconds_def max_instant_def set_config_def less_eq_prod_def

subsection \<open>The claim protocol\<close>






subsection \<open>What each operation does to a row\<close>

text \<open>
  On a store with unique ids, the row of a given id after an operation is a function of
  the row of that id before it. The lemmas below give that function for each operation;
  the operations keep the ids unique.
\<close>

lemma update_where_row:
  assumes "distinct (map job_id rows)" and "\<And>x. job_id (upd x) = job_id x"
    and "r \<in> set rows" and "r' \<in> set (update_where cond upd rows)" and "job_id r' = job_id r"
  shows "r' = (if cond r then upd r else r)"
proof -
  from assms(4) obtain x where x: "x \<in> set rows" "r' = (if cond x then upd x else x)"
    by (auto simp: set_update_where)
  with assms(2,5) have "job_id x = job_id r" by (auto split: if_splits)
  with distinct_ids_unique [OF assms(1,3) x(1)] have "x = r" by simp
  with x(2) show ?thesis by simp
qed

lemma jobs_claim_selected:
  "jobs (snd (claim_selected now jid s)) = update_where (claim_where jid) (claim_set now) (jobs s)"
  by (simp add: claim_selected_def Let_def rowcount_zero update_where_unmatched)

lemma jobs_claim_job:
  "jobs (snd (claim_job now s)) =
    (case select_claimable now (jobs s) of
       None \<Rightarrow> jobs s
     | Some jid \<Rightarrow> update_where (claim_where jid) (claim_set now) (jobs s))"
  by (simp add: claim_job_def jobs_claim_selected split: option.splits)

lemma ids_claim_job: "map job_id (jobs (snd (claim_job now s))) = map job_id (jobs s)"
  by (simp add: jobs_claim_job update_where_ids split: option.splits)

lemma ids_mark_job_completed:
  "map job_id (jobs (mark_job_completed now jid code out err s)) = map job_id (jobs s)"
  by (simp add: mark_job_completed_def Let_def update_where_ids)

lemma ids_mark_job_failed:
  "map job_id
     (jobs (committed s (mark_job_failed now now_retry jid code msg retries base att out err s)))
    = map job_id (jobs s)"
  by (simp add: mark_job_failed_def committed_def Let_def update_where_ids split: sum.splits)

lemma ids_retry_job:
  "map job_id (jobs (committed s (retry_job now jid retries s))) = map job_id (jobs s)"
  by (simp add: retry_job_def committed_def update_where_ids split: option.splits)

lemma primary_key_apply_op: "primary_key s \<Longrightarrow> primary_key (apply_op x s)"
proof (cases x)
  case (Enqueue now i cmd retries run_at prio)
  assume "primary_key s"
  then show ?thesis
    by (auto simp: Enqueue primary_key_def enqueue_job_def committed_def)
next
  case (Claim now)
  assume "primary_key s"
  then show ?thesis by (simp add: Claim primary_key_def ids_claim_job)
next
  case (MarkCompleted now jid code out err)
  assume "primary_key s"
  then show ?thesis by (simp add: MarkCompleted primary_key_def ids_mark_job_completed)
next
  case (MarkFailed now now_retry jid code msg retries base att out err)
  assume "primary_key s"
  then show ?thesis by (simp add: MarkFailed primary_key_def ids_mark_job_failed)
next
  case (Retry now jid retries)
  assume "primary_key s"
  then show ?thesis by (simp add: Retry primary_key_def ids_retry_job)
next
  case (SetConfig key v)
  assume "primary_key s"
  then show ?thesis by (simp add: SetConfig primary_key_def set_config_def)
qed

lemma primary_key_init_db: "primary_key init_db"
  by (simp add: primary_key_def init_db_def)

lemma primary_key_run_ops: "primary_key s \<Longrightarrow> primary_key (run_ops xs s)"
  by (induction xs arbitrary: s) (simp_all add: primary_key_apply_op)


lemma row_enqueue:
  assumes "primary_key s" and "r \<in> set (jobs s)"
    and "r' \<in> set (jobs (apply_op (Enqueue now i cmd retries run_at prio) s))"
    and "job_id r' = job_id r"
  shows "r' = r"
proof -
  have "r' \<in> set (jobs s)"
    using assms(2,3,4)
    by (auto simp: enqueue_job_def committed_def split: if_splits)
  with distinct_ids_unique [of "jobs s" r r'] assms show ?thesis
    by (simp add: primary_key_def)
qed

lemma row_claim:
  assumes "primary_key s" and "r \<in> set (jobs s)"
    and "r' \<in> set (jobs (apply_op (Claim now) s))" and "job_id r' = job_id r"
  shows "r' = r \<or> (claimable now r \<and> r' = claim_set now r \<and> fst (claim_job now s) = Some r')"
proof (cases "select_claimable now (jobs s)")
  case None
  with assms(3) have "r' \<in> set (jobs s)" by (simp add: jobs_claim_job)
  with distinct_ids_unique [of "jobs s" r r'] assms show ?thesis
    by (simp add: primary_key_def)
next
  case (Some jid)
  from select_claimable_Some [OF Some] obtain r0 where
    r0: "r0 \<in> set (jobs s)" "claimable now r0" "job_id r0 = jid" by blast
  from assms(3) Some
  have "r' \<in> set (update_where (claim_where jid) (claim_set now) (jobs s))"
    by (simp add: jobs_claim_job)
  from update_where_row [OF _ _ assms(2) this assms(4)] assms(1)
  have r': "r' = (if claim_where jid r then claim_set now r else r)"
    by (simp add: primary_key_def)
  show ?thesis
  proof (cases "claim_where jid r")
    case True
    then have "job_id r = job_id r0" using r0(3) by (simp add: claim_where_def)
    with distinct_ids_unique [of "jobs s" r0 r] assms(1,2) r0(1) have "r = r0"
      by (simp add: primary_key_def)
    moreover from claim_selected_Some [OF r0(1) claimable_claim_where [OF r0(2)] assms(1), of now]
    have "fst (claim_job now s) = Some (claim_set now r0)"
      using Some r0(3) by (simp add: claim_job_def)
    ultimately show ?thesis using r' True r0(2) by simp
  next
    case False
    with r' show ?thesis by simp
  qed
qed

lemma row_mark_job_completed:
  assumes "primary_key s" and "r \<in> set (jobs s)"
    and "r' \<in> set (jobs (mark_job_completed now jid code out err s))"
    and "job_id r' = job_id r"
  shows "r' = (if job_id r = jid
               then r\<lparr>state := Completed, result_code := Some code, finished_at := Some now,
                      updated_at := now, stdout := head_slice 10000 out,
                      stderr := head_slice 10000 err\<rparr>
               else r)"
proof -
  from assms(3) have "r' \<in> set (update_where (\<lambda>r. job_id r = jid)
      (\<lambda>r. r\<lparr>state := Completed, result_code := Some code, finished_at := Some now,
             updated_at := now, stdout := head_slice 10000 out,
             stderr := head_slice 10000 err\<rparr>) (jobs s))"
    by (simp add: mark_job_completed_def Let_def)
  from update_where_row [OF _ _ assms(2) this assms(4)] assms(1)
  show ?thesis by (simp add: primary_key_def)
qed

lemma row_mark_job_failed:
  assumes "primary_key s" and "r \<in> set (jobs s)"
    and "r' \<in> set (jobs (committed s
            (mark_job_failed now now_retry jid code msg retries base att out err s)))"
    and "job_id r' = job_id r"
  shows "r' = (if job_id r \<noteq> jid then r
               else if retries \<le> int att
               then r\<lparr>state := Dead, result_code := Some code,
                      last_error := head_slice 2000 (Some msg),
                      finished_at := Some now, updated_at := now,
                      stdout := head_slice 10000 out, stderr := head_slice 10000 err\<rparr>
               else (case add_seconds now_retry (base ^ att) of
                       Inl e \<Rightarrow> r
                     | Inr next_run \<Rightarrow>
                         r\<lparr>state := Pending, result_code := Some code,
                           last_error := head_slice 2000 (Some msg),
                           next_run_at := Some (isoformat next_run), updated_at := now,
                           stdout := head_slice 10000 out, stderr := head_slice 10000 err\<rparr>))"
proof (cases "retries \<le> int att")
  case True
  with assms(3) have "r' \<in> set (update_where (\<lambda>r. job_id r = jid)
      (\<lambda>r. r\<lparr>state := Dead, result_code := Some code,
                      last_error := head_slice 2000 (Some msg),
                      finished_at := Some now, updated_at := now,
                      stdout := head_slice 10000 out, stderr := head_slice 10000 err\<rparr>) (jobs s))"
    by (simp add: mark_job_failed_def committed_def Let_def)
  from update_where_row [OF _ _ assms(2) this assms(4)] assms(1) True
  show ?thesis by (simp add: primary_key_def)
next
  case False
  show ?thesis
  proof (cases "add_seconds now_retry (base ^ att)")
    case (Inl e)
    with assms(3) False have "r' \<in> set (jobs s)"
      by (simp add: mark_job_failed_def committed_def Let_def)
    with distinct_ids_unique [of "jobs s" r r'] assms have "r' = r"
      by (simp add: primary_key_def)
    with False Inl show ?thesis by simp
  next
    case (Inr next_run)
    with assms(3) False have "r' \<in> set (update_where (\<lambda>r. job_id r = jid)
      (\<lambda>r. r\<lparr>state := Pending, result_code := Some code,
                      last_error := head_slice 2000 (Some msg),
                      next_run_at := Some (isoformat next_run), updated_at := now,
                      stdout := head_slice 10000 out, stderr := head_slice 10000 err\<rparr>) (jobs s))"
      by (simp add: mark_job_failed_def committed_def Let_def)
    from update_where_row [OF _ _ assms(2) this assms(4)] assms(1) False Inr
    show ?thesis by (simp add: primary_key_def)
  qed
qed

lemma retry_job_cases:
  assumes "primary_key s" and "r \<in> set (jobs s)"
  shows "retry_job now (job_id r) retries s =
          (if state r \<noteq> Dead then Inl (NotInDLQ (state r))
           else Inr (s\<lparr>jobs := update_where (\<lambda>x. job_id x = job_id r)
             (\<lambda>x. x\<lparr>state := Pending, attempts := 0,
                    max_retries := (case retries of None \<Rightarrow> max_retries x | Some m \<Rightarrow> m),
                    next_run_at := None, updated_at := now\<rparr>) (jobs s)\<rparr>))"
proof -
  have "fetch_by_id (job_id r) (jobs s) = Some r"
    using assms by (simp add: fetch_by_id_distinct primary_key_def)
  then show ?thesis by (cases retries) (simp_all add: retry_job_def)
qed

lemma retry_job_NotFound:
  "jid \<notin> job_id ` set (jobs s) \<Longrightarrow> retry_job now jid retries s = Inl NotFound"
  by (simp add: retry_job_def fetch_by_id_None [THEN iffD2])

lemma row_retry_job:
  assumes "primary_key s" and "r \<in> set (jobs s)"
    and "r' \<in> set (jobs (apply_op (Retry now jid retries) s))" and "job_id r' = job_id r"
  shows "r' = (if job_id r = jid \<and> state r = Dead
               then r\<lparr>state := Pending, attempts := 0,
                      max_retries := (case retries of None \<Rightarrow> max_retries r | Some m \<Rightarrow> m),
                      next_run_at := None, updated_at := now\<rparr>
               else r)"
proof (cases "jid \<in> job_id ` set (jobs s)")
  case False
  with assms(3) have "r' \<in> set (jobs s)"
    by (simp add: retry_job_NotFound committed_def)
  moreover from False assms(2) have "job_id r \<noteq> jid" by auto
  ultimately show ?thesis using distinct_ids_unique [of "jobs s" r r'] assms
    by (simp add: primary_key_def)
next
  case True
  then obtain r0 where r0: "r0 \<in> set (jobs s)" "job_id r0 = jid" by auto
  show ?thesis
  proof (cases "state r0 = Dead")
    case False
    with assms(3) r0 retry_job_cases [OF assms(1) r0(1), of now retries]
    have mem: "r' \<in> set (jobs s)" by (simp add: committed_def)
    have "\<not> (job_id r = jid \<and> state r = Dead)"
      using distinct_ids_unique [of "jobs s" r0 r] assms(1,2) r0 False
      by (auto simp: primary_key_def)
    moreover from mem distinct_ids_unique [of "jobs s" r r'] assms have "r' = r"
      by (simp add: primary_key_def)
    ultimately show ?thesis by auto
  next
    case Dead: True
    with assms(3) r0 retry_job_cases [OF assms(1) r0(1), of now retries]
    have "r' \<in> set (update_where (\<lambda>x. job_id x = jid)
             (\<lambda>x. x\<lparr>state := Pending, attempts := 0,
                    max_retries := (case retries of None \<Rightarrow> max_retries x | Some m \<Rightarrow> m),
                    next_run_at := None, updated_at := now\<rparr>) (jobs s))"
      by (simp add: committed_def)
    from update_where_row [OF _ _ assms(2) this assms(4)] assms(1)
    have r': "r' = (if job_id r = jid then r\<lparr>state := Pending, attempts := 0,
                    max_retries := (case retries of None \<Rightarrow> max_retries r | Some m \<Rightarrow> m),
                    next_run_at := None, updated_at := now\<rparr> else r)"
      by (simp add: primary_key_def)
    show ?thesis
    proof (cases "job_id r = jid")
      case True
      with distinct_ids_unique [of "jobs s" r0 r] assms(1,2) r0 have "r = r0"
        by (simp add: primary_key_def)
      with Dead r' True show ?thesis by simp
    next
      case False
      with r' show ?thesis by simp
    qed
  qed
qed

subsection \<open>Counting claims along a run\<close>

lemma enqueue_job_rows:
  "jobs (committed s (enqueue_job now i cmd retries run_at prio s)) =
    (if i \<in> job_id ` set (jobs s) then jobs s
     else jobs s @
       [\<lparr>job_id = i, command = cmd, state = Pending, attempts = 0,
         max_retries = (case retries of None \<Rightarrow> 3 | Some m \<Rightarrow> m),
         created_at = now, updated_at = now, started_at = None, finished_at = None,
         result_code = None, last_error = None, next_run_at = run_at,
         stdout = None, stderr = None,
         priority = (case prio of None \<Rightarrow> 0 | Some p \<Rightarrow> p)\<rparr>])"
  by (simp add: enqueue_job_def committed_def)

lemma count_claim_step:
  assumes pk: "primary_key s"
    and inv: "\<forall>r\<in>set (jobs s). job_id r = jid \<longrightarrow> attempts r = n"
    and r': "r' \<in> set (jobs (apply_op x s))" "job_id r' = jid"
  shows "attempts r' = count_claim jid x s n"
proof (cases "jid \<in> job_id ` set (jobs s)")
  case False
  note fresh = this
  show ?thesis
  proof (cases x)
    case (Enqueue now i cmd retries run_at prio)
    have notin: "r' \<notin> set (jobs s)" using fresh r'(2) by auto
    with r'(1) have i: "i \<notin> job_id ` set (jobs s)"
      by (auto simp: Enqueue enqueue_job_rows split: if_splits)
    with r'(1) notin have "attempts r' = 0 \<and> job_id r' = i"
      by (auto simp: Enqueue enqueue_job_rows)
    moreover from i have "\<exists>s'. enqueue_job now i cmd retries run_at prio s = Inr s'"
      by (simp add: enqueue_job_def)
    ultimately show ?thesis using r'(2) by (auto simp: Enqueue)
  next
    case (Claim now)
    with r' fresh ids_claim_job [of now s] show ?thesis
      by (metis apply_op.simps(2) image_eqI list.set_map)
  next
    case (MarkCompleted now i code out err)
    with r' fresh ids_mark_job_completed [of now i code out err s] show ?thesis
      by (metis apply_op.simps(3) image_eqI list.set_map)
  next
    case (MarkFailed now now_retry i code msg retries base att out err)
    with r' fresh ids_mark_job_failed [of s now now_retry i code msg retries base att out err]
    show ?thesis
      by (metis apply_op.simps(4) image_eqI list.set_map)
  next
    case (Retry now i retries)
    with r' fresh ids_retry_job [of s now i retries] show ?thesis
      by (metis apply_op.simps(5) image_eqI list.set_map)
  next
    case (SetConfig key v)
    with r' fresh show ?thesis by (auto simp: set_config_def)
  qed
next
  case True
  then obtain r where r: "r \<in> set (jobs s)" "job_id r = jid" by auto
  with inv have n: "attempts r = n" by simp
  from r r' have same: "job_id r' = job_id r" by simp
  show ?thesis
  proof (cases x)
    case (Enqueue now i cmd retries run_at prio)
    from row_enqueue [OF pk r(1) r'(1) [unfolded Enqueue] same] have "r' = r" .
    moreover have "count_claim jid x s n = n"
      using True r by (auto simp: Enqueue enqueue_job_def)
    ultimately show ?thesis using n by simp
  next
    case (Claim now)
    note rc = row_claim [OF pk r(1) r'(1) [unfolded Claim] same]
    show ?thesis
    proof (cases "fst (claim_job now s)")
      case None
      with rc have "r' = r" by auto
      with None n show ?thesis by (simp add: Claim)
    next
      case (Some j)
      then obtain s' where res: "claim_job now s = (Some j, s')"
        by (cases "claim_job now s") auto
      from claim_job_Some [OF res pk] obtain r0 where
        r0: "r0 \<in> set (jobs s)" "claimable now r0" "j = claim_set now r0"
          "s' = s\<lparr>jobs := update_where (claim_where (job_id r0)) (claim_set now) (jobs s)\<rparr>"
        by blast
      show ?thesis
      proof (cases "job_id j = jid")
        case True
        with r0(3) r(2) have "job_id r0 = job_id r" by simp
        with distinct_ids_unique [of "jobs s" r r0] pk r(1) r0(1) have "r0 = r"
          by (simp add: primary_key_def)
        from r'(1) res r0(4) have
          "r' \<in> set (update_where (claim_where (job_id r0)) (claim_set now) (jobs s))"
          by (simp add: Claim)
        from update_where_row [OF _ _ r(1) this same] pk \<open>r0 = r\<close> r0(2)
        have "r' = claim_set now r"
          by (simp add: primary_key_def claimable_claim_where)
        with Some True n show ?thesis by (simp add: Claim claim_set_def)
      next
        case False
        with rc Some r'(2) have "r' = r" by auto
        with Some False n show ?thesis by (simp add: Claim)
      qed
    qed
  next
    case (MarkCompleted now i code out err)
    from row_mark_job_completed [OF pk r(1) r'(1) [unfolded MarkCompleted apply_op.simps] same]
    have "attempts r' = attempts r" by (simp split: if_splits)
    with n show ?thesis by (simp add: MarkCompleted)
  next
    case (MarkFailed now now_retry i code msg retries base att out err)
    from row_mark_job_failed [OF pk r(1) r'(1) [unfolded MarkFailed apply_op.simps] same]
    have "attempts r' = attempts r" by (simp split: if_splits sum.splits)
    with n show ?thesis by (simp add: MarkFailed)
  next
    case (Retry now i retries)
    note rr = row_retry_job [OF pk r(1) r'(1) [unfolded Retry] same]
    show ?thesis
    proof (cases "i = jid")
      case False
      with rr r(2) n show ?thesis by (simp add: Retry split: sum.splits)
    next
      case True
      with retry_job_cases [OF pk r(1), of now retries] r(2)
      have "count_claim jid x s n = (if state r = Dead then 0 else n)"
        by (simp add: Retry)
      with rr True r(2) n show ?thesis by (simp split: if_splits)
    qed
  next
    case (SetConfig key v)
    with r'(1) have "r' \<in> set (jobs s)" by (simp add: set_config_def)
    with distinct_ids_unique [of "jobs s" r r'] pk r(1) same have "r' = r"
      by (simp add: primary_key_def)
    with n show ?thesis by (simp add: SetConfig)
  qed
qed

lemma claims_since_invariant:
  assumes "primary_key s"
    and "\<forall>r\<in>set (jobs s). job_id r = jid \<longrightarrow> attempts r = n"
  shows "\<forall>r\<in>set (jobs (run_ops xs s)). job_id r = jid \<longrightarrow> attempts r = claims_since jid xs s n"
  using assms
proof (induction xs arbitrary: s n)
  case Nil
  then show ?case by simp
next
  case (Cons x xs)
  have "primary_key (apply_op x s)" using Cons.prems(1) by (rule primary_key_apply_op)
  moreover have "\<forall>r\<in>set (jobs (apply_op x s)). job_id r = jid \<longrightarrow>
      attempts r = count_claim jid x s n"
    using count_claim_step [OF Cons.prems] by blast
  ultimately show ?case using Cons.IH by simp
qed

subsection \<open>Entering \<open>Processing\<close>\<close>

lemma claim_job_no_job:
  assumes "claim_job now s = (None, s')" and "primary_key s"
  shows "s' = s"
proof (cases "\<exists>r\<in>set (jobs s). claimable now r")
  case True
  then obtain r where "r \<in> set (jobs s)" "claimable now r" by blast
  from claim_job_returns [OF this assms(2)] assms(1) show ?thesis by simp
next
  case False
  then have "claim_job now s = (None, s)" by (simp add: claim_job_None)
  with assms(1) show ?thesis by simp
qed

lemma enters_processing:
  assumes pk: "primary_key s" and r: "r \<in> set (jobs s)"
    and r': "r' \<in> set (jobs (apply_op x s))" "job_id r' = job_id r"
    and st: "state r' = Processing" "state r \<noteq> Processing"
  shows "state r = Pending \<and> attempts r' = attempts r + 1 \<and> (\<exists>t. x = Claim t)"
proof (cases x)
  case (Enqueue now i cmd retries run_at prio)
  from row_enqueue [OF pk r r'(1) [unfolded Enqueue] r'(2)] st show ?thesis by simp
next
  case (Claim now)
  from row_claim [OF pk r r'(1) [unfolded Claim] r'(2)] st Claim show ?thesis
    by (auto simp: claimable_def claim_set_def)
next
  case (MarkCompleted now i code out err)
  from row_mark_job_completed [OF pk r r'(1) [unfolded MarkCompleted apply_op.simps] r'(2)] st
  show ?thesis by (simp split: if_splits)
next
  case (MarkFailed now now_retry i code msg retries base att out err)
  from row_mark_job_failed [OF pk r r'(1) [unfolded MarkFailed apply_op.simps] r'(2)] st
  show ?thesis by (simp split: if_splits sum.splits)
next
  case (Retry now i retries)
  from row_retry_job [OF pk r r'(1) [unfolded Retry] r'(2)] st
  show ?thesis by (simp split: if_splits)
next
  case (SetConfig key v)
  with r'(1) have "r' \<in> set (jobs s)" by (simp add: set_config_def)
  with distinct_ids_unique [of "jobs s" r r'] pk r r'(2) have "r' = r"
    by (simp add: primary_key_def)
  with st show ?thesis by simp
qed

lemma new_row_pending:
  assumes "r' \<in> set (jobs (apply_op x s))" and "job_id r' \<notin> job_id ` set (jobs s)"
  shows "state r' = Pending \<and> attempts r' = 0"
proof -
  have old: "map job_id (jobs (apply_op x s)) = map job_id (jobs s) \<Longrightarrow> False"
  proof -
    assume "map job_id (jobs (apply_op x s)) = map job_id (jobs s)"
    then have "job_id ` set (jobs (apply_op x s)) = job_id ` set (jobs s)"
      by (metis list.set_map)
    with assms show False by blast
  qed
  show ?thesis
  proof (cases x)
    case (Enqueue now i cmd retries run_at prio)
    with assms show ?thesis
      by (auto simp: enqueue_job_rows split: if_splits)
  next
    case (Claim now)
    with old ids_claim_job [of now s] show ?thesis by simp
  next
    case (MarkCompleted now i code out err)
    with old ids_mark_job_completed [of now i code out err s] show ?thesis by simp
  next
    case (MarkFailed now now_retry i code msg retries base att out err)
    with old ids_mark_job_failed [of s now now_retry i code msg retries base att out err]
    show ?thesis by simp
  next
    case (Retry now i retries)
    with old ids_retry_job [of s now i retries] show ?thesis by simp
  next
    case (SetConfig key v)
    with old show ?thesis by (simp add: set_config_def)
  qed
qed

text \<open>
  Claim C1. On a store with unique ids:
  \<^item> when the guarded update of \<^verbatim>\<open>claim_job\<close> matches no row, the call returns no job and
    the store is as before (there is no second attempt);
  \<^item> a claim that returns a job has moved exactly the rows that the guard
    \<^verbatim>\<open>id = ? AND state = 'pending'\<close> matches, by the one update, which adds one to
    \<^verbatim>\<open>attempts\<close>; the job returned is the updated row of a row that was pending;
  \<^item> a claim that returns no job leaves the store as it was;
  \<^item> whatever operation is applied, a row that is \<open>Processing\<close> afterwards and was not
    before was \<open>Pending\<close>, the operation was a claim, and its \<^verbatim>\<open>attempts\<close> grew by one;
    a row whose id is new is \<open>Pending\<close> with no attempts;
  \<^item> along every run from the empty database, the \<^verbatim>\<open>attempts\<close> of a job is the number of
    successful claims of it since its insert or its last successful \<^verbatim>\<open>retry_job\<close>.
\<close>

theorem claim_only_from_pending_counts_attempts:
  assumes "primary_key s"
  shows "(rowcount (claim_where jid) (jobs s) = 0 \<longrightarrow> claim_selected now jid s = (None, s))
    \<and> (\<forall>j s'. claim_job now s = (Some j, s') \<longrightarrow>
          (\<exists>r\<in>set (jobs s). state r = Pending
             \<and> j = r\<lparr>state := Processing, attempts := attempts r + 1,
                     started_at := Some now, updated_at := now\<rparr>
             \<and> s' = s\<lparr>jobs := update_where (claim_where (job_id r)) (claim_set now) (jobs s)\<rparr>))
    \<and> (\<forall>s'. claim_job now s = (None, s') \<longrightarrow> s' = s)
    \<and> (\<forall>r r'. r \<in> set (jobs s) \<and> r' \<in> set (jobs (apply_op x s)) \<and> job_id r' = job_id r
          \<and> state r' = Processing \<and> state r \<noteq> Processing
          \<longrightarrow> state r = Pending \<and> attempts r' = attempts r + 1 \<and> (\<exists>t. x = Claim t))
    \<and> (\<forall>r'. r' \<in> set (jobs (apply_op x s)) \<and> job_id r' \<notin> job_id ` set (jobs s)
          \<longrightarrow> state r' = Pending \<and> attempts r' = 0)
    \<and> (\<forall>r\<in>set (jobs (run_ops xs init_db)).
          attempts r = claims_since (job_id r) xs init_db 0)"
proof (intro conjI allI impI ballI)
  assume "rowcount (claim_where jid) (jobs s) = 0"
  then show "claim_selected now jid s = (None, s)" by (simp add: claim_selected_def)
next
  fix j s' assume "claim_job now s = (Some j, s')"
  from claim_job_Some [OF this assms]
  show "\<exists>r\<in>set (jobs s). state r = Pending
          \<and> j = r\<lparr>state := Processing, attempts := attempts r + 1,
                  started_at := Some now, updated_at := now\<rparr>
          \<and> s' = s\<lparr>jobs := update_where (claim_where (job_id r)) (claim_set now) (jobs s)\<rparr>"
    by (auto simp: claimable_def claim_set_def)
next
  fix s' assume "claim_job now s = (None, s')"
  then show "s' = s" using assms by (rule claim_job_no_job)
next
  fix r r'
  assume a: "r \<in> set (jobs s) \<and> r' \<in> set (jobs (apply_op x s)) \<and> job_id r' = job_id r
    \<and> state r' = Processing \<and> state r \<noteq> Processing"
  with enters_processing [OF assms, of r r' x]
  show "state r = Pending" "attempts r' = attempts r + 1" "\<exists>t. x = Claim t" by simp_all
next
  fix r'
  assume a: "r' \<in> set (jobs (apply_op x s)) \<and> job_id r' \<notin> job_id ` set (jobs s)"
  with new_row_pending [of r' x s] show "state r' = Pending" "attempts r' = 0" by simp_all
next
  fix r assume "r \<in> set (jobs (run_ops xs init_db))"
  with claims_since_invariant [OF primary_key_init_db, of "job_id r" 0 xs]
  show "attempts r = claims_since (job_id r) xs init_db 0"
    by (simp add: init_db_def)
qed

theorem claim_only_from_pending_counts_attempts_witness:
  "primary_key (run_ops [Enqueue 1 ''j'' ''false'' (Some 2) None None] init_db)
   \<and> map state (jobs (run_ops [Enqueue 1 ''j'' ''false'' (Some 2) None None] init_db))
       = [Pending]
   \<and> map_option job_id
        (fst (claim_job 2 (run_ops [Enqueue 1 ''j'' ''false'' (Some 2) None None] init_db)))
       = Some ''j''
   \<and> map_option state
        (fst (claim_job 2 (run_ops [Enqueue 1 ''j'' ''false'' (Some 2) None None] init_db)))
       = Some Processing
   \<and> map_option attempts
        (fst (claim_job 2 (run_ops [Enqueue 1 ''j'' ''false'' (Some 2) None None] init_db)))
       = Some 1
   \<and> primary_key (run_ops [Enqueue 1 ''j'' ''false'' (Some 2) None None, Claim 2] init_db)
   \<and> map state (jobs (run_ops [Enqueue 1 ''j'' ''false'' (Some 2) None None, Claim 2] init_db))
       = [Processing]
   \<and> rowcount (claim_where ''j'')
        (jobs (run_ops [Enqueue 1 ''j'' ''false'' (Some 2) None None, Claim 2] init_db)) = 0
   \<and> claim_selected 3 ''j''
        (run_ops [Enqueue 1 ''j'' ''false'' (Some 2) None None, Claim 2] init_db)
       = (None, run_ops [Enqueue 1 ''j'' ''false'' (Some 2) None None, Claim 2] init_db)
   \<and> map job_id (jobs (run_ops
        [Enqueue 1 ''j'' ''false'' (Some 2) None None, Claim 2,
         MarkFailed 3 3 ''j'' 1 [98] 2 2 1 None None, Claim 5000000,
         MarkFailed 5000001 5000001 ''j'' 1 [98] 2 2 2 None None,
         Retry 6000000 ''j'' None, Claim 7000000] init_db)) = [''j'']
   \<and> map attempts (jobs (run_ops
        [Enqueue 1 ''j'' ''false'' (Some 2) None None, Claim 2,
         MarkFailed 3 3 ''j'' 1 [98] 2 2 1 None None, Claim 5000000,
         MarkFailed 5000001 5000001 ''j'' 1 [98] 2 2 2 None None,
         Retry 6000000 ''j'' None, Claim 7000000] init_db)) = [1]
   \<and> claims_since ''j''
        [Enqueue 1 ''j'' ''false'' (Some 2) None None, Claim 2,
         MarkFailed 3 3 ''j'' 1 [98] 2 2 1 None None, Claim 5000000,
         MarkFailed 5000001 5000001 ''j'' 1 [98] 2 2 2 None None,
         Retry 6000000 ''j'' None, Claim 7000000] init_db 0 = 1"
proof -
  let ?before = "run_ops [Enqueue 1 ''j'' ''false'' (Some 2) None None] init_db"
  let ?after = "run_ops [Enqueue 1 ''j'' ''false'' (Some 2) None None, Claim 2] init_db"
  let ?xs = "[Enqueue 1 ''j'' ''false'' (Some 2) None None, Claim 2,
         MarkFailed 3 3 ''j'' 1 [98] 2 2 1 None None, Claim 5000000,
         MarkFailed 5000001 5000001 ''j'' 1 [98] 2 2 2 None None,
         Retry 6000000 ''j'' None, Claim 7000000]"
  have pk0: "primary_key ?before" by (simp add: store_defs)
  have st0: "map state (jobs ?before) = [Pending]" by (simp add: store_defs)
  have row0: "map job_id (jobs ?before) = [''j'']" "map attempts (jobs ?before) = [0]"
    by (simp_all add: store_defs)
  obtain j s' where got: "claim_job 2 ?before = (Some j, s')" by (simp add: store_defs)
  note inst0 = claim_only_from_pending_counts_attempts [OF pk0, of "''j''" 2 "Claim 2" "[]"]
  from inst0 have "\<forall>j s'. claim_job 2 ?before = (Some j, s') \<longrightarrow>
          (\<exists>r\<in>set (jobs ?before). state r = Pending
             \<and> j = r\<lparr>state := Processing, attempts := attempts r + 1,
                     started_at := Some 2, updated_at := 2\<rparr>
             \<and> s' = ?before\<lparr>jobs := update_where (claim_where (job_id r)) (claim_set 2) (jobs ?before)\<rparr>)"
    by (rule conjunct1 [OF conjunct2])
  with got obtain r where r: "r \<in> set (jobs ?before)"
    "j = r\<lparr>state := Processing, attempts := attempts r + 1, started_at := Some 2,
          updated_at := 2\<rparr>"
    by blast
  from row0(1) obtain r0 where r0: "jobs ?before = [r0]" by (auto simp: map_eq_Cons_conv)
  with row0 r(1) have "job_id r = ''j''" "attempts r = 0" by simp_all
  with r(2) have claimed: "job_id j = ''j''" "state j = Processing" "attempts j = 1"
    by simp_all
  have pk: "primary_key ?after" by (simp add: store_defs)
  have st: "map state (jobs ?after) = [Processing]" by (simp add: store_defs)
  have zero: "rowcount (claim_where ''j'') (jobs ?after) = 0" by (simp add: store_defs)
  have ids: "map job_id (jobs (run_ops ?xs init_db)) = [''j'']" by (simp add: store_defs)
  have att: "map attempts (jobs (run_ops ?xs init_db)) = [1]" by (simp add: store_defs)
  note inst = claim_only_from_pending_counts_attempts [OF pk, of "''j''" 3 "Claim 3" ?xs]
  from inst zero have rolled: "claim_selected 3 ''j'' ?after = (None, ?after)" by blast
  from inst have cnt: "\<forall>r\<in>set (jobs (run_ops ?xs init_db)).
      attempts r = claims_since (job_id r) ?xs init_db 0" by blast
  from ids obtain q where q: "jobs (run_ops ?xs init_db) = [q]" by (auto simp: map_eq_Cons_conv)
  with ids att have "job_id q = ''j''" "attempts q = 1" by simp_all
  moreover from cnt q have "attempts q = claims_since (job_id q) ?xs init_db 0" by simp
  ultimately have "claims_since ''j'' ?xs init_db 0 = 1" by simp
  with pk0 st0 got claimed pk st zero rolled ids att show ?thesis by simp
qed

subsection \<open>Failure: retry or dead letter queue\<close>

text \<open>
  What \<^verbatim>\<open>mark_job_failed\<close> does to the job it names, on a store with unique ids, whenever
  it returns: the branch is taken on \<^verbatim>\<open>attempts >= max_retries\<close>; on the one side the job
  is dead and \<^verbatim>\<open>finished_at\<close> is the time of the call, on the other it is pending again,
  \<^verbatim>\<open>next_run_at\<close> is the clock plus \<^verbatim>\<open>backoff_base ** attempts\<close> seconds and \<^verbatim>\<open>finished_at\<close>
  is left alone. It returns on the first side always, on the second when that sum is an
  instant of \<^verbatim>\<open>datetime\<close>.
\<close>

lemma mark_job_failed_returns:
  "retries \<le> int att \<or> add_seconds now_retry (base ^ att) = Inr t
    \<Longrightarrow> \<exists>s'. mark_job_failed now now_retry jid code msg retries base att out err s = Inr s'"
  by (auto simp: mark_job_failed_def Let_def)

lemma mark_job_failed_raises:
  "int att < retries \<Longrightarrow> add_seconds now_retry (base ^ att) = Inl e
    \<Longrightarrow> mark_job_failed now now_retry jid code msg retries base att out err s = Inl e"
  by (simp add: mark_job_failed_def Let_def)

lemma row_kept:
  assumes "map job_id rows' = map job_id rows" and "r \<in> set rows"
  shows "\<exists>r'\<in>set rows'. job_id r' = job_id r"
proof -
  from assms have "job_id r \<in> set (map job_id rows')" by simp
  then show ?thesis by auto
qed

lemma mark_job_failed_row:
  assumes pk: "primary_key s" and r: "r \<in> set (jobs s)" "job_id r = jid"
    and ok: "retries \<le> int att \<or> add_seconds now_retry (base ^ att) = Inr t"
  shows "\<exists>s'. mark_job_failed now now_retry jid code msg retries base att out err s = Inr s'
          \<and> (if retries \<le> int att
               then r\<lparr>state := Dead, result_code := Some code,
                      last_error := head_slice 2000 (Some msg),
                      finished_at := Some now, updated_at := now,
                      stdout := head_slice 10000 out, stderr := head_slice 10000 err\<rparr>
               else r\<lparr>state := Pending, result_code := Some code,
                      last_error := head_slice 2000 (Some msg),
                      next_run_at := Some (isoformat (now_retry + base ^ att * 1000000)), updated_at := now,
                      stdout := head_slice 10000 out, stderr := head_slice 10000 err\<rparr>)
              \<in> set (jobs s')"
proof -
  from mark_job_failed_returns [OF ok] obtain s' where
    s': "mark_job_failed now now_retry jid code msg retries base att out err s = Inr s'"
    by blast
  then have com: "committed s
      (mark_job_failed now now_retry jid code msg retries base att out err s) = s'"
    by (simp add: committed_def)
  from ids_mark_job_failed [of s now now_retry jid code msg retries base att out err] com
  have ids: "map job_id (jobs s') = map job_id (jobs s)" by simp
  from row_kept [OF ids r(1)] obtain r' where
    r': "r' \<in> set (jobs s')" "job_id r' = job_id r" by blast
  note row = row_mark_job_failed [OF pk r(1) r'(1) [folded com] r'(2)]
  have t: "\<not> retries \<le> int att \<Longrightarrow> add_seconds now_retry (base ^ att)
      = Inr (now_retry + base ^ att * 1000000)"
    using ok by (cases "retries \<le> int att") (simp_all add: add_seconds_def Let_def split: if_splits)
  show ?thesis
  proof (cases "retries \<le> int att")
    case True
    with row r(2) have "r' = r\<lparr>state := Dead, result_code := Some code,
                      last_error := head_slice 2000 (Some msg),
                      finished_at := Some now, updated_at := now,
                      stdout := head_slice 10000 out, stderr := head_slice 10000 err\<rparr>"
      by simp
    with r'(1) True s' show ?thesis by simp
  next
    case False
    with row r(2) t have "r' = r\<lparr>state := Pending, result_code := Some code,
                           last_error := head_slice 2000 (Some msg),
                           next_run_at := Some (isoformat (now_retry + base ^ att * 1000000)),
                           updated_at := now,
                           stdout := head_slice 10000 out, stderr := head_slice 10000 err\<rparr>"
      by simp
    with r'(1) False s' show ?thesis by simp
  qed
qed


lemma mark_job_failed_outcome:
  assumes pk: "primary_key s" and r: "r \<in> set (jobs s)" "job_id r = jid"
    and res: "mark_job_failed now now_retry jid code msg retries base att out err s = Inr s'"
    and r': "r' \<in> set (jobs s')" "job_id r' = jid"
  shows "attempts r' = attempts r \<and> max_retries r' = max_retries r
       \<and> (state r' = Dead \<and> retries \<le> int att \<or> state r' = Pending \<and> int att < retries)"
proof -
  from res have com: "committed s
      (mark_job_failed now now_retry jid code msg retries base att out err s) = s'"
    by (simp add: committed_def)
  from r' r(2) have same: "job_id r' = job_id r" by simp
  note row = row_mark_job_failed [OF pk r(1) r'(1) [folded com] same]
  show ?thesis
  proof (cases "retries \<le> int att")
    case True
    with row r(2) show ?thesis by simp
  next
    case False
    with res obtain t where "add_seconds now_retry (base ^ att) = Inr t"
      by (cases "add_seconds now_retry (base ^ att)") (simp_all add: mark_job_failed_def Let_def)
    with row r(2) False show ?thesis by simp
  qed
qed

lemma claimed_job_in_store:
  assumes "claim_job now s = (Some job, s1)" and "primary_key s"
  shows "job \<in> set (jobs s1) \<and> primary_key s1
       \<and> (\<exists>r\<in>set (jobs s). job_id r = job_id job \<and> attempts job = attempts r + 1
             \<and> max_retries job = max_retries r)"
proof -
  from claim_job_Some [OF assms] obtain r where
    r: "r \<in> set (jobs s)" "claimable now r" "job = claim_set now r"
      "s1 = s\<lparr>jobs := update_where (claim_where (job_id r)) (claim_set now) (jobs s)\<rparr>"
    by blast
  have "claim_set now r \<in> set (update_where (claim_where (job_id r)) (claim_set now) (jobs s))"
    using r(1) claimable_claim_where [OF r(2)] by (force simp: set_update_where)
  moreover have "map job_id (update_where (claim_where (job_id r)) (claim_set now) (jobs s))
      = map job_id (jobs s)"
    by (rule update_where_ids) simp
  ultimately show ?thesis using r assms(2)
    by (auto simp: primary_key_def claim_set_def)
qed

lemma natural_failure:
  assumes pk: "primary_key s" and cl: "claim_job now_claim s = (Some job, s1)"
    and nf: "\<not> success result"
    and ex: "execute_job now now_retry now2 now2_retry exc_text configured_base result job s1
              = Inr s2"
    and r2: "r2 \<in> set (jobs s2)" "job_id r2 = job_id job"
  shows "attempts r2 = attempts job \<and> max_retries r2 = max_retries job
       \<and> (state r2 = Dead \<and> max_retries r2 \<le> int (attempts r2)
          \<or> state r2 = Pending \<and> int (attempts r2) < max_retries r2)"
proof -
  from claimed_job_in_store [OF cl pk] have job: "job \<in> set (jobs s1)" and pk1: "primary_key s1"
    by simp_all
  from ex nf obtain t tr code msg b out err where
    "mark_job_failed t tr (job_id job) code msg (max_retries job) b (attempts job) out err s1
      = Inr s2"
    by (auto simp: execute_job_def Let_def split: sum.splits)
  from mark_job_failed_outcome [OF pk1 job refl this r2] show ?thesis by auto
qed

text \<open>
  \<open>natural_failure\<close> is the retry budget: the worker passes the \<^verbatim>\<open>attempts\<close> and
  \<^verbatim>\<open>max_retries\<close> that the claim returned (by \<open>claimed_job_in_store\<close> the count after the
  increment, so the first delay is \<^verbatim>\<open>backoff_base ** 1\<close>), and a job that a failed execution
  leaves dead has \<^verbatim>\<open>attempts >= max_retries\<close>.
\<close>

text \<open>
  Claim C3. \<^verbatim>\<open>mark_job_failed\<close> branches on \<^verbatim>\<open>attempts_so_far >= max_retries\<close>; below the
  budget the job is to return to \<open>Pending\<close> with \<^verbatim>\<open>next_run_at\<close> at
  \<^verbatim>\<open>now + backoff_base ^ attempts_so_far\<close> seconds. The lemmas above prove this for every call
  that returns. The theorem evaluates a call that does not: with \<^verbatim>\<open>backoff_base\<close> configured
  as \<open>10^12\<close>, the first failure of a job with three retries asks for an instant after the
  year 9999, \<^verbatim>\<open>mark_job_failed\<close> raises \<^verbatim>\<open>OverflowError\<close> before its \<^verbatim>\<open>UPDATE\<close>, so does the
  second call from the \<^verbatim>\<open>except\<close> block of the worker, and the job stays \<open>Processing\<close> with
  one attempt of three, where the claim has it \<open>Pending\<close>.
\<close>

theorem retry_delay_overflow_strands_job:
  "mark_job_failed 63900000000000002 63900000000000003 ''j'' 1
     (literal ''Command failed with exit code '' @ str_int 1) 3 1000000000000 1 (Some []) None
     (run_ops [Enqueue 63900000000000000 ''j'' ''false'' (Some 3) None None,
               Claim 63900000000000001] init_db) = Inl OverflowError
   \<and> map state (jobs (worker_round 63900000000000001 63900000000000002 63900000000000003
        63900000000000004 63900000000000005 (literal ''date value out of range'') 1000000000000
        (\<lambda>c. \<lparr>success = False, exit_code = 1, output_str = [], error = None\<rparr>)
        (run_ops [Enqueue 63900000000000000 ''j'' ''false'' (Some 3) None None] init_db)))
      = [Processing]
   \<and> map attempts (jobs (worker_round 63900000000000001 63900000000000002 63900000000000003
        63900000000000004 63900000000000005 (literal ''date value out of range'') 1000000000000
        (\<lambda>c. \<lparr>success = False, exit_code = 1, output_str = [], error = None\<rparr>)
        (run_ops [Enqueue 63900000000000000 ''j'' ''false'' (Some 3) None None] init_db)))
      = [1]
   \<and> map max_retries (jobs (worker_round 63900000000000001 63900000000000002 63900000000000003
        63900000000000004 63900000000000005 (literal ''date value out of range'') 1000000000000
        (\<lambda>c. \<lparr>success = False, exit_code = 1, output_str = [], error = None\<rparr>)
        (run_ops [Enqueue 63900000000000000 ''j'' ''false'' (Some 3) None None] init_db)))
      = [3]"
  by (simp add: store_defs worker_round_def execute_job_def)

subsection \<open>Marking a job that is not in the store\<close>

lemma mark_missing_id:
  assumes "jid \<notin> job_id ` set (jobs s)"
  shows "rowcount (\<lambda>r. job_id r = jid) (jobs s) = 0
       \<and> mark_job_completed now jid code out err s = s
       \<and> committed s (mark_job_failed now now_retry jid code msg retries base att out err s) = s
       \<and> (retries \<le> int att \<or> add_seconds now_retry (base ^ att) = Inr t \<longrightarrow>
            mark_job_failed now now_retry jid code msg retries base att out err s = Inr s)"
proof -
  have none: "\<forall>r\<in>set (jobs s). \<not> job_id r = jid" using assms by auto
  have upd: "\<And>f. update_where (\<lambda>r. job_id r = jid) f (jobs s) = jobs s"
    using none by (rule update_where_unmatched)
  have a: "rowcount (\<lambda>r. job_id r = jid) (jobs s) = 0"
    using none by (simp add: rowcount_zero)
  have b: "mark_job_completed now jid code out err s = s"
    by (simp add: mark_job_completed_def Let_def upd)
  have c: "committed s (mark_job_failed now now_retry jid code msg retries base att out err s) = s"
    by (simp add: mark_job_failed_def committed_def Let_def upd split: sum.splits)
  have d: "retries \<le> int att \<or> add_seconds now_retry (base ^ att) = Inr t \<longrightarrow>
            mark_job_failed now now_retry jid code msg retries base att out err s = Inr s"
    by (auto simp: mark_job_failed_def Let_def upd)
  from a b c d show ?thesis by blast
qed

text \<open>
  Claim C10. \<^verbatim>\<open>mark_job_completed\<close> and \<^verbatim>\<open>mark_job_failed\<close> with an id that no row has are to
  return normally and leave the store unchanged. By \<open>mark_missing_id\<close> the store is
  unchanged in every case, \<^verbatim>\<open>mark_job_completed\<close> always returns, and \<^verbatim>\<open>mark_job_failed\<close>
  returns on the dead-letter path and whenever the retry time is an instant of
  \<^verbatim>\<open>datetime\<close>. The theorem evaluates a call where it is not: the retry time is computed
  before the \<^verbatim>\<open>UPDATE\<close>, and \<^verbatim>\<open>OverflowError\<close> is raised although no row has the id.
\<close>

theorem mark_job_failed_missing_id_raises:
  "mark_job_failed 63900000000000000 63900000000000001 ''ghost'' 1 [98] 3 1000000000000 1
     None None init_db = Inl OverflowError"
  by (simp add: store_defs)

subsection \<open>Replay from the dead letter queue\<close>

lemma retry_job_store:
  assumes "retry_job now jid retries s = Inr s'"
  shows "config s' = config s
       \<and> jobs s' = update_where (\<lambda>x. job_id x = jid)
             (\<lambda>x. x\<lparr>state := Pending, attempts := 0,
                    max_retries := (case retries of None \<Rightarrow> max_retries x | Some m \<Rightarrow> m),
                    next_run_at := None, updated_at := now\<rparr>) (jobs s)
       \<and> (\<exists>r\<in>set (jobs s). job_id r = jid \<and> state r = Dead)"
proof -
  from assms obtain row where row: "fetch_by_id jid (jobs s) = Some row" "state row = Dead"
    by (auto simp: retry_job_def split: option.splits if_splits)
  from fetch_by_id_Some [OF row(1)] row(2)
  have ex: "\<exists>r\<in>set (jobs s). job_id r = jid \<and> state r = Dead" by auto
  from assms row show ?thesis using ex
    by (cases retries) (auto simp: retry_job_def)
qed

text \<open>
  Claim C4. On a store with unique ids, \<^verbatim>\<open>retry_job(id, max_retries)\<close>
  \<^item> fails with the not-found error when no job has the id, and the store is as before;
  \<^item> fails with the not-in-DLQ error when the job of that id is in a state other than
    \<open>Dead\<close>, and the store is as before;
  \<^item> succeeds when the job is \<open>Dead\<close>: that row gets \<open>state = Pending\<close>, \<open>attempts = 0\<close>,
    \<open>next_run_at\<close> null, \<open>updated_at = now\<close>, and \<open>max_retries\<close> the argument when one is given
    and its old value otherwise; every other row and the configuration stay.
\<close>

theorem retry_job_replay:
  assumes "primary_key s"
  shows "(jid \<notin> job_id ` set (jobs s) \<longrightarrow>
            retry_job now jid retries s = Inl NotFound \<and> apply_op (Retry now jid retries) s = s)
       \<and> (\<forall>r\<in>set (jobs s). job_id r = jid \<and> state r \<noteq> Dead \<longrightarrow>
            retry_job now jid retries s = Inl (NotInDLQ (state r))
            \<and> apply_op (Retry now jid retries) s = s)
       \<and> (\<forall>r\<in>set (jobs s). job_id r = jid \<and> state r = Dead \<longrightarrow>
            (\<exists>s'. retry_job now jid retries s = Inr s' \<and> config s' = config s
               \<and> jobs s' = map (\<lambda>x. if job_id x = jid
                    then x\<lparr>state := Pending, attempts := 0,
                           max_retries := (case retries of None \<Rightarrow> max_retries x | Some m \<Rightarrow> m),
                           next_run_at := None, updated_at := now\<rparr>
                    else x) (jobs s)))"
proof (intro conjI impI ballI)
  assume "jid \<notin> job_id ` set (jobs s)"
  then have "retry_job now jid retries s = Inl NotFound" by (rule retry_job_NotFound)
  then show "retry_job now jid retries s = Inl NotFound"
    and "apply_op (Retry now jid retries) s = s"
    by (simp_all add: committed_def)
next
  fix r assume r: "r \<in> set (jobs s)" and "job_id r = jid \<and> state r \<noteq> Dead"
  with retry_job_cases [OF assms r, of now retries]
  have "retry_job now jid retries s = Inl (NotInDLQ (state r))" by auto
  then show "retry_job now jid retries s = Inl (NotInDLQ (state r))"
    and "apply_op (Retry now jid retries) s = s"
    by (simp_all add: committed_def)
next
  fix r assume r: "r \<in> set (jobs s)" and "job_id r = jid \<and> state r = Dead"
  with retry_job_cases [OF assms r, of now retries]
  show "\<exists>s'. retry_job now jid retries s = Inr s' \<and> config s' = config s
               \<and> jobs s' = map (\<lambda>x. if job_id x = jid
                    then x\<lparr>state := Pending, attempts := 0,
                           max_retries := (case retries of None \<Rightarrow> max_retries x | Some m \<Rightarrow> m),
                           next_run_at := None, updated_at := now\<rparr>
                    else x) (jobs s)"
    by (auto simp: update_where_def)
qed

theorem retry_job_replay_witness:
  "primary_key (run_ops
      [Enqueue 1 ''j2'' ''false'' (Some 3) None None,
       Claim 2, MarkFailed 3 3 ''j2'' 1 [98] 3 1 1 None None,
       Claim 2000000, MarkFailed 2000001 2000001 ''j2'' 1 [98] 3 1 2 None None,
       Claim 4000000, MarkFailed 4000001 4000001 ''j2'' 1 [98] 3 1 3 None None,
       Enqueue 4000002 ''j3'' ''true'' None None None] init_db)
   \<and> map (\<lambda>r. (job_id r, state r, attempts r, max_retries r)) (jobs (run_ops
      [Enqueue 1 ''j2'' ''false'' (Some 3) None None,
       Claim 2, MarkFailed 3 3 ''j2'' 1 [98] 3 1 1 None None,
       Claim 2000000, MarkFailed 2000001 2000001 ''j2'' 1 [98] 3 1 2 None None,
       Claim 4000000, MarkFailed 4000001 4000001 ''j2'' 1 [98] 3 1 3 None None,
       Enqueue 4000002 ''j3'' ''true'' None None None] init_db))
      = [(''j2'', Dead, 3, 3), (''j3'', Pending, 0, 3)]
   \<and> map (\<lambda>r. (job_id r, state r, attempts r, max_retries r, next_run_at r, updated_at r))
       (jobs (apply_op (Retry 5000000 ''j2'' (Some 5)) (run_ops
      [Enqueue 1 ''j2'' ''false'' (Some 3) None None,
       Claim 2, MarkFailed 3 3 ''j2'' 1 [98] 3 1 1 None None,
       Claim 2000000, MarkFailed 2000001 2000001 ''j2'' 1 [98] 3 1 2 None None,
       Claim 4000000, MarkFailed 4000001 4000001 ''j2'' 1 [98] 3 1 3 None None,
       Enqueue 4000002 ''j3'' ''true'' None None None] init_db)))
      = [(''j2'', Pending, 0, 5, None, 5000000), (''j3'', Pending, 0, 3, None, 4000002)]
   \<and> retry_job 5000000 ''j3'' (Some 5) (run_ops
      [Enqueue 1 ''j2'' ''false'' (Some 3) None None,
       Claim 2, MarkFailed 3 3 ''j2'' 1 [98] 3 1 1 None None,
       Claim 2000000, MarkFailed 2000001 2000001 ''j2'' 1 [98] 3 1 2 None None,
       Claim 4000000, MarkFailed 4000001 4000001 ''j2'' 1 [98] 3 1 3 None None,
       Enqueue 4000002 ''j3'' ''true'' None None None] init_db) = Inl (NotInDLQ Pending)
   \<and> retry_job 5000000 ''j4'' (Some 5) (run_ops
      [Enqueue 1 ''j2'' ''false'' (Some 3) None None,
       Claim 2, MarkFailed 3 3 ''j2'' 1 [98] 3 1 1 None None,
       Claim 2000000, MarkFailed 2000001 2000001 ''j2'' 1 [98] 3 1 2 None None,
       Claim 4000000, MarkFailed 4000001 4000001 ''j2'' 1 [98] 3 1 3 None None,
       Enqueue 4000002 ''j3'' ''true'' None None None] init_db) = Inl NotFound"
proof -
  let ?s = "run_ops
      [Enqueue 1 ''j2'' ''false'' (Some 3) None None,
       Claim 2, MarkFailed 3 3 ''j2'' 1 [98] 3 1 1 None None,
       Claim 2000000, MarkFailed 2000001 2000001 ''j2'' 1 [98] 3 1 2 None None,
       Claim 4000000, MarkFailed 4000001 4000001 ''j2'' 1 [98] 3 1 3 None None,
       Enqueue 4000002 ''j3'' ''true'' None None None] init_db"
  have pk: "primary_key ?s" by (simp add: store_defs)
  have rows: "map (\<lambda>r. (job_id r, state r, attempts r, max_retries r)) (jobs ?s)
      = [(''j2'', Dead, 3, 3), (''j3'', Pending, 0, 3)]"
    by (simp add: store_defs)
  have ids: "job_id ` set (jobs ?s) = {''j2'', ''j3''}"
    by (simp add: store_defs)
  have after: "map (\<lambda>r. (job_id r, state r, attempts r, max_retries r, next_run_at r, updated_at r))
       (jobs (apply_op (Retry 5000000 ''j2'' (Some 5)) ?s))
      = [(''j2'', Pending, 0, 5, None, 5000000), (''j3'', Pending, 0, 3, None, 4000002)]"
    by (simp add: store_defs)
  from retry_job_replay [OF pk, of "''j4''" 5000000 "Some 5"] ids
  have nf: "retry_job 5000000 ''j4'' (Some 5) ?s = Inl NotFound" by simp
  from rows obtain a b where ab: "jobs ?s = [a, b]" by (auto simp: map_eq_Cons_conv)
  with rows have b: "b \<in> set (jobs ?s)" "job_id b = ''j3''" "state b = Pending" by simp_all
  with retry_job_replay [OF pk, of "''j3''" 5000000 "Some 5"]
  have nd: "retry_job 5000000 ''j3'' (Some 5) ?s = Inl (NotInDLQ Pending)" by fastforce
  from pk rows after nd nf show ?thesis by blast
qed

subsection \<open>\<^verbatim>\<open>next_run_at\<close> after a replay and after completion\<close>

text \<open>
  A job fails once below its budget, which sets \<^verbatim>\<open>next_run_at\<close>, is claimed again when that
  time has come, and completes: \<^verbatim>\<open>next_run_at\<close> still holds the retry time. Neither
  \<^verbatim>\<open>claim_job\<close> nor \<^verbatim>\<open>mark_job_completed\<close> names the column.
\<close>

theorem completion_keeps_next_run_at_counterexample:
  "map state (jobs (run_ops
      [Enqueue 1 ''j'' ''flaky'' (Some 3) None None,
       Claim 2, MarkFailed 3 4 ''j'' 1 [98] 3 2 1 None None,
       Claim 3000000, MarkCompleted 3000001 ''j'' 0 (Some [111, 107]) None] init_db))
    = [Completed]
   \<and> map next_run_at (jobs (run_ops
      [Enqueue 1 ''j'' ''flaky'' (Some 3) None None,
       Claim 2, MarkFailed 3 4 ''j'' 1 [98] 3 2 1 None None,
       Claim 3000000, MarkCompleted 3000001 ''j'' 0 (Some [111, 107]) None] init_db))
    = [Some (isoformat 2000004)]"
  by (simp add: store_defs)

text \<open>
  Claim C6, as the code has it. \<^verbatim>\<open>next_run_at\<close> is cleared on replay: after a \<^verbatim>\<open>retry_job\<close>
  that succeeds, the job of that id is in the store and its \<^verbatim>\<open>next_run_at\<close> is null,
  whatever it was. \<^verbatim>\<open>mark_job_completed\<close> leaves the \<^verbatim>\<open>next_run_at\<close> of every row as it
  was.
\<close>

theorem next_run_at_cleared_on_replay_only:
  "(retry_job now jid retries s = Inr s' \<longrightarrow>
      (\<exists>r'\<in>set (jobs s'). job_id r' = jid)
      \<and> (\<forall>r'\<in>set (jobs s'). job_id r' = jid \<longrightarrow> next_run_at r' = None))
   \<and> map next_run_at (jobs (mark_job_completed now2 jid2 code out err s))
       = map next_run_at (jobs s)"
proof (intro conjI impI)
  assume res: "retry_job now jid retries s = Inr s'"
  note st = retry_job_store [OF res]
  from st obtain r where r: "r \<in> set (jobs s)" "job_id r = jid" by blast
  have "map job_id (jobs s') = map job_id (jobs s)"
    using st by (simp add: update_where_ids)
  from row_kept [OF this r(1)] r(2)
  show "\<exists>r'\<in>set (jobs s'). job_id r' = jid" by simp
  show "\<forall>r'\<in>set (jobs s'). job_id r' = jid \<longrightarrow> next_run_at r' = None"
    using st by (auto simp: set_update_where split: if_splits)
next
  show "map next_run_at (jobs (mark_job_completed now2 jid2 code out err s))
       = map next_run_at (jobs s)"
    by (simp add: mark_job_completed_def Let_def update_where_def)
qed

theorem next_run_at_cleared_on_replay_only_witness:
  "map (\<lambda>r. (job_id r, state r, next_run_at r)) (jobs (run_ops
      [Enqueue 1 ''j'' ''flaky'' (Some 1) (Some (isoformat 2)) None,
       Claim 2, MarkFailed 3 4 ''j'' 1 [98] 1 2 1 None None] init_db))
    = [(''j'', Dead, Some (isoformat 2))]
   \<and> map (\<lambda>r. (job_id r, state r, next_run_at r))
        (jobs (committed init_db (retry_job 5 ''j'' None (run_ops
      [Enqueue 1 ''j'' ''flaky'' (Some 1) (Some (isoformat 2)) None,
       Claim 2, MarkFailed 3 4 ''j'' 1 [98] 1 2 1 None None] init_db))))
    = [(''j'', Pending, None)]"
proof -
  let ?s = "run_ops
      [Enqueue 1 ''j'' ''flaky'' (Some 1) (Some (isoformat 2)) None,
       Claim 2, MarkFailed 3 4 ''j'' 1 [98] 1 2 1 None None] init_db"
  have before: "map (\<lambda>r. (job_id r, state r, next_run_at r)) (jobs ?s) = [(''j'', Dead, Some (isoformat 2))]"
    by (simp add: store_defs)
  obtain s' where res: "retry_job 5 ''j'' None ?s = Inr s'"
    by (simp add: store_defs)
  have rows: "map (\<lambda>r. (job_id r, state r)) (jobs s') = [(''j'', Pending)]"
    using res by (auto simp: store_defs)
  then obtain r' where r': "jobs s' = [r']" by (auto simp: map_eq_Cons_conv)
  with rows have "job_id r' = ''j''" "state r' = Pending" by simp_all
  moreover from next_run_at_cleared_on_replay_only [of 5 "''j''" None ?s s'] res r'
    \<open>job_id r' = ''j''\<close>
  have "next_run_at r' = None" by simp
  ultimately have "map (\<lambda>r. (job_id r, state r, next_run_at r)) (jobs s') = [(''j'', Pending, None)]"
    using r' by simp
  with before res show ?thesis by (simp add: committed_def)
qed

subsection \<open>\<^verbatim>\<open>started_at\<close> at a later claim\<close>

text \<open>
  A job that was claimed at instant 2 and failed below its budget is claimed again at
  instant 3000000: its \<^verbatim>\<open>started_at\<close>, which was set, is now the time of the second claim.
\<close>

theorem later_claim_resets_started_at_counterexample:
  "map started_at (jobs (run_ops
      [Enqueue 1 ''j'' ''flaky'' (Some 3) None None,
       Claim 2, MarkFailed 3 4 ''j'' 1 [98] 3 2 1 None None] init_db))
    = [Some 2]
   \<and> map_option job_id (fst (claim_job 3000000 (run_ops
      [Enqueue 1 ''j'' ''flaky'' (Some 3) None None,
       Claim 2, MarkFailed 3 4 ''j'' 1 [98] 3 2 1 None None] init_db))) = Some ''j''
   \<and> map started_at (jobs (run_ops
      [Enqueue 1 ''j'' ''flaky'' (Some 3) None None,
       Claim 2, MarkFailed 3 4 ''j'' 1 [98] 3 2 1 None None, Claim 3000000] init_db))
    = [Some 3000000]"
  by (simp add: store_defs)

text \<open>
  Claim C7, as the code has it. On a store with unique ids, every claim that returns a
  job sets that job's \<^verbatim>\<open>started_at\<close> to the time of the claim, whatever it was before,
  together with \<open>state = Processing\<close>, one more attempt and \<open>updated_at\<close>; the job returned
  is the row in the store.
\<close>

theorem claim_sets_started_at:
  assumes "claim_job now s = (Some j, s')" and "primary_key s"
  shows "\<exists>r\<in>set (jobs s). job_id r = job_id j \<and> state r = Pending
          \<and> j \<in> set (jobs s')
          \<and> started_at j = Some now \<and> state j = Processing
          \<and> attempts j = attempts r + 1 \<and> updated_at j = now"
proof -
  from claim_job_Some [OF assms] obtain r where
    r: "r \<in> set (jobs s)" "claimable now r" "j = claim_set now r" by blast
  moreover from claimed_job_in_store [OF assms] have "j \<in> set (jobs s')" by simp
  ultimately show ?thesis by (auto simp: claimable_def claim_set_def)
qed

theorem claim_sets_started_at_witness:
  "primary_key (run_ops
      [Enqueue 1 ''j'' ''flaky'' (Some 3) None None,
       Claim 2, MarkFailed 3 4 ''j'' 1 [98] 3 2 1 None None] init_db)
   \<and> map started_at (jobs (run_ops
      [Enqueue 1 ''j'' ''flaky'' (Some 3) None None,
       Claim 2, MarkFailed 3 4 ''j'' 1 [98] 3 2 1 None None] init_db)) = [Some 2]
   \<and> map_option (\<lambda>r. (job_id r, state r, attempts r, started_at r, updated_at r))
       (fst (claim_job 3000000 (run_ops
      [Enqueue 1 ''j'' ''flaky'' (Some 3) None None,
       Claim 2, MarkFailed 3 4 ''j'' 1 [98] 3 2 1 None None] init_db)))
      = Some (''j'', Processing, 2, Some 3000000, 3000000)"
proof -
  let ?s = "run_ops
      [Enqueue 1 ''j'' ''flaky'' (Some 3) None None,
       Claim 2, MarkFailed 3 4 ''j'' 1 [98] 3 2 1 None None] init_db"
  have pk: "primary_key ?s" by (simp add: store_defs)
  have old: "map started_at (jobs ?s) = [Some 2]" by (simp add: store_defs)
  have rows: "map (\<lambda>r. (job_id r, attempts r)) (jobs ?s) = [(''j'', 1)]"
    by (simp add: store_defs)
  obtain j s' where res: "claim_job 3000000 ?s = (Some j, s')"
    by (simp add: store_defs)
  from claim_sets_started_at [OF res pk] rows
  have "job_id j = ''j'' \<and> state j = Processing \<and> attempts j = 2
      \<and> started_at j = Some 3000000 \<and> updated_at j = 3000000"
    by (auto simp: map_eq_Cons_conv)
  with pk old res show ?thesis by simp
qed

subsection \<open>Truncation of captured output\<close>

lemma in_update_where:
  "r' \<in> set (update_where cond upd rows)
    \<Longrightarrow> (\<exists>x\<in>set rows. cond x \<and> r' = upd x) \<or> (\<exists>x\<in>set rows. r' = x \<and> \<not> cond x)"
  by (auto simp: set_update_where split: if_splits)

lemma byte_length_replicate: "byte_length (replicate n c) = n * utf8_length c"
  by (induction n) (simp_all add: byte_length_def)

lemma byte_length_bound: "byte_length t \<le> 4 * length t"
  by (induction t) (simp_all add: byte_length_def utf8_length_def)

lemma head_slice_Some:
  assumes "head_slice n x = Some y"
  shows "\<exists>t. x = Some t \<and> t \<noteq> [] \<and> y = take n t \<and> length y \<le> n
          \<and> (n < length t \<longrightarrow> length y = n) \<and> byte_length y \<le> 4 * n"
proof -
  from assms obtain t where t: "x = Some t" "t \<noteq> []" "y = take n t"
    by (auto simp: head_slice_def split: option.splits if_splits)
  have "byte_length y \<le> 4 * length y" by (rule byte_length_bound)
  also have "\<dots> \<le> 4 * n" using t(3) by simp
  finally show ?thesis using t by auto
qed

lemma streams_mark_job_completed:
  assumes "r' \<in> set (jobs (mark_job_completed now jid code out err s))" and "job_id r' = jid"
  shows "stdout r' = head_slice 10000 out \<and> stderr r' = head_slice 10000 err"
proof -
  from assms(1) have "r' \<in> set (update_where (\<lambda>r. job_id r = jid)
          (\<lambda>r. r\<lparr>state := Completed, result_code := Some code, finished_at := Some now,
                 updated_at := now, stdout := head_slice 10000 out,
                 stderr := head_slice 10000 err\<rparr>) (jobs s))"
    by (simp add: mark_job_completed_def Let_def)
  from in_update_where [OF this] assms(2)
  obtain x where "r' = x\<lparr>state := Completed, result_code := Some code, finished_at := Some now,
                 updated_at := now, stdout := head_slice 10000 out,
                 stderr := head_slice 10000 err\<rparr>"
    by blast
  then show ?thesis by simp
qed

lemma streams_mark_job_failed:
  assumes res: "mark_job_failed now now_retry jid code msg retries base att out err s = Inr s'"
    and r': "r' \<in> set (jobs s')" "job_id r' = jid"
  shows "last_error r' = head_slice 2000 (Some msg)
       \<and> stdout r' = head_slice 10000 out \<and> stderr r' = head_slice 10000 err"
proof (cases "retries \<le> int att")
  case True
  with res have "s' = s\<lparr>jobs := update_where (\<lambda>r. job_id r = jid)
      (\<lambda>r. r\<lparr>state := Dead, result_code := Some code,
             last_error := head_slice 2000 (Some msg),
             finished_at := Some now, updated_at := now,
             stdout := head_slice 10000 out, stderr := head_slice 10000 err\<rparr>) (jobs s)\<rparr>"
    by (simp add: mark_job_failed_def Let_def)
  with r'(1) have "r' \<in> set (update_where (\<lambda>r. job_id r = jid)
      (\<lambda>r. r\<lparr>state := Dead, result_code := Some code,
             last_error := head_slice 2000 (Some msg),
             finished_at := Some now, updated_at := now,
             stdout := head_slice 10000 out, stderr := head_slice 10000 err\<rparr>) (jobs s))"
    by simp
  from in_update_where [OF this] r'(2)
  obtain x where "r' = x\<lparr>state := Dead, result_code := Some code,
             last_error := head_slice 2000 (Some msg),
             finished_at := Some now, updated_at := now,
             stdout := head_slice 10000 out, stderr := head_slice 10000 err\<rparr>"
    by blast
  then show ?thesis by simp
next
  case False
  with res obtain t where t: "add_seconds now_retry (base ^ att) = Inr t"
    by (cases "add_seconds now_retry (base ^ att)") (simp_all add: mark_job_failed_def Let_def)
  with res False have "s' = s\<lparr>jobs := update_where (\<lambda>r. job_id r = jid)
      (\<lambda>r. r\<lparr>state := Pending, result_code := Some code,
             last_error := head_slice 2000 (Some msg),
             next_run_at := Some (isoformat t), updated_at := now,
             stdout := head_slice 10000 out, stderr := head_slice 10000 err\<rparr>) (jobs s)\<rparr>"
    by (simp add: mark_job_failed_def Let_def)
  with r'(1) have "r' \<in> set (update_where (\<lambda>r. job_id r = jid)
      (\<lambda>r. r\<lparr>state := Pending, result_code := Some code,
             last_error := head_slice 2000 (Some msg),
             next_run_at := Some (isoformat t), updated_at := now,
             stdout := head_slice 10000 out, stderr := head_slice 10000 err\<rparr>) (jobs s))"
    by simp
  from in_update_where [OF this] r'(2)
  obtain x where "r' = x\<lparr>state := Pending, result_code := Some code,
             last_error := head_slice 2000 (Some msg),
             next_run_at := Some (isoformat t), updated_at := now,
             stdout := head_slice 10000 out, stderr := head_slice 10000 err\<rparr>"
    by blast
  then show ?thesis by simp
qed

text \<open>
  A job prints 10001 times the letter U+00E9, which UTF-8 encodes in two bytes. The stored
  \<^verbatim>\<open>stdout\<close> has 10000 code points: 20000 bytes, twice the limit of the claim.
\<close>

theorem stored_output_over_limit_in_bytes_counterexample:
  "map (map_option length) (map stdout (jobs (run_ops
      [Enqueue 1 ''j'' ''cat menu'' None None None, Claim 2,
       MarkCompleted 3 ''j'' 0 (Some (replicate 10001 233)) None] init_db))) = [Some 10000]
   \<and> map (map_option byte_length) (map stdout (jobs (run_ops
      [Enqueue 1 ''j'' ''cat menu'' None None None, Claim 2,
       MarkCompleted 3 ''j'' 0 (Some (replicate 10001 233)) None] init_db))) = [Some 20000]"
  by (simp add: store_defs byte_length_replicate utf8_length_def)

text \<open>
  Claim C8, as the code has it. The slices count code points, not bytes. The rows that
  \<^verbatim>\<open>mark_job_completed\<close> and \<^verbatim>\<open>mark_job_failed\<close> (when it returns) write carry
  \<^verbatim>\<open>stdout\<close> and \<^verbatim>\<open>stderr\<close> sliced at 10000 and \<^verbatim>\<open>last_error\<close> sliced at 2000, where a slice at
  \<open>n\<close> of a text that is absent or empty is null and of any other text its first \<open>n\<close>
  code points: at most \<open>n\<close> of them, exactly \<open>n\<close> when the text is longer, and at most
  \<open>4 * n\<close> bytes.
\<close>

theorem output_truncated_by_code_points:
  "(\<forall>r'\<in>set (jobs (mark_job_completed now jid code out err s)). job_id r' = jid \<longrightarrow>
      stdout r' = head_slice 10000 out \<and> stderr r' = head_slice 10000 err)
   \<and> (mark_job_failed now now_retry jid code msg retries base att out err s = Inr s' \<longrightarrow>
        (\<forall>r'\<in>set (jobs s'). job_id r' = jid \<longrightarrow>
           last_error r' = head_slice 2000 (Some msg)
           \<and> stdout r' = head_slice 10000 out \<and> stderr r' = head_slice 10000 err))
   \<and> (head_slice n x = Some y \<longrightarrow>
        (\<exists>t. x = Some t \<and> t \<noteq> [] \<and> y = take n t \<and> length y \<le> n
           \<and> (n < length t \<longrightarrow> length y = n) \<and> byte_length y \<le> 4 * n))
   \<and> (head_slice n x = None \<longleftrightarrow> x = None \<or> x = Some [])"
proof -
  have a: "\<forall>r'\<in>set (jobs (mark_job_completed now jid code out err s)). job_id r' = jid \<longrightarrow>
      stdout r' = head_slice 10000 out \<and> stderr r' = head_slice 10000 err"
    using streams_mark_job_completed by blast
  have b: "mark_job_failed now now_retry jid code msg retries base att out err s = Inr s' \<longrightarrow>
        (\<forall>r'\<in>set (jobs s'). job_id r' = jid \<longrightarrow>
           last_error r' = head_slice 2000 (Some msg)
           \<and> stdout r' = head_slice 10000 out \<and> stderr r' = head_slice 10000 err)"
    using streams_mark_job_failed by blast
  have c: "head_slice n x = Some y \<longrightarrow>
        (\<exists>t. x = Some t \<and> t \<noteq> [] \<and> y = take n t \<and> length y \<le> n
           \<and> (n < length t \<longrightarrow> length y = n) \<and> byte_length y \<le> 4 * n)"
    using head_slice_Some by blast
  have d: "head_slice n x = None \<longleftrightarrow> x = None \<or> x = Some []"
    by (cases x) (simp_all add: head_slice_def)
  from a b c d show ?thesis by blast
qed

theorem output_truncated_by_code_points_witness:
  "map stdout (jobs (mark_job_completed 3 ''j'' 0 (Some (replicate 10001 233)) (Some [])
      (run_ops [Enqueue 1 ''j'' ''cat menu'' None None None, Claim 2] init_db)))
     = [Some (replicate 10000 233)]
   \<and> map stderr (jobs (mark_job_completed 3 ''j'' 0 (Some (replicate 10001 233)) (Some [])
      (run_ops [Enqueue 1 ''j'' ''cat menu'' None None None, Claim 2] init_db)))
     = [None]
   \<and> map last_error (jobs (committed init_db (mark_job_failed 3 4 ''j'' 1 (replicate 2001 97)
      3 2 1 None None
      (run_ops [Enqueue 1 ''j'' ''cat menu'' None None None, Claim 2] init_db))))
     = [Some (replicate 2000 97)]"
proof -
  let ?s = "run_ops [Enqueue 1 ''j'' ''cat menu'' None None None, Claim 2] init_db"
  let ?c = "mark_job_completed 3 ''j'' 0 (Some (replicate 10001 233)) (Some []) ?s"
  have idc: "map job_id (jobs ?c) = [''j'']" by (simp add: store_defs)
  then obtain r where r: "jobs ?c = [r]" by (auto simp: map_eq_Cons_conv)
  with idc have rid: "job_id r = ''j''" by simp
  from output_truncated_by_code_points
    [where now = 3 and jid = "''j''" and code = 0 and out = "Some (replicate 10001 233)"
       and err = "Some []" and s = ?s] r rid
  have "stdout r = head_slice 10000 (Some (replicate 10001 233))"
    and "stderr r = head_slice 10000 (Some [])"
    by simp_all
  then have c: "map stdout (jobs ?c) = [Some (replicate 10000 233)]" "map stderr (jobs ?c) = [None]"
    using r by (simp_all add: head_slice_def)
  obtain s' where f: "mark_job_failed 3 4 ''j'' 1 (replicate 2001 97) 3 2 1 None None ?s = Inr s'"
    by (simp add: store_defs)
  have idf: "map job_id (jobs s') = [''j'']" using f by (auto simp: store_defs)
  then obtain q where q: "jobs s' = [q]" by (auto simp: map_eq_Cons_conv)
  with idf have qid: "job_id q = ''j''" by simp
  from output_truncated_by_code_points
    [where now = 3 and now_retry = 4 and jid = "''j''" and code = 1
       and msg = "replicate 2001 97" and retries = 3 and base = 2 and att = 1
       and out = None and err = None and s = ?s and s' = s'] f q qid
  have "last_error q = head_slice 2000 (Some (replicate 2001 97))" by simp
  then have "map last_error (jobs s') = [Some (replicate 2000 97)]"
    using q by (simp add: head_slice_def)
  with c f show ?thesis by (simp add: committed_def)
qed

subsection \<open>Jobs in a terminal state\<close>

lemma ids_kept: "set (map job_id (jobs s)) \<subseteq> set (map job_id (jobs (apply_op x s)))"
proof (cases x)
  case (Enqueue now i cmd retries run_at prio)
  then show ?thesis by (auto simp: enqueue_job_rows)
next
  case (Claim now)
  then show ?thesis using ids_claim_job [of now s] by simp
next
  case (MarkCompleted now i code out err)
  then show ?thesis using ids_mark_job_completed [of now i code out err s] by simp
next
  case (MarkFailed now now_retry i code msg retries base att out err)
  then show ?thesis
    using ids_mark_job_failed [of s now now_retry i code msg retries base att out err] by simp
next
  case (Retry now i retries)
  then show ?thesis using ids_retry_job [of s now i retries] by simp
next
  case (SetConfig key v)
  then show ?thesis by (simp add: set_config_def)
qed

lemma terminal_row_same:
  assumes pk: "primary_key s" and r: "r \<in> set (jobs s)"
    and fin: "state r = Completed \<or> state r = Dead"
    and nc: "\<forall>now code out err. x \<noteq> MarkCompleted now (job_id r) code out err"
    and nf: "\<forall>now now_retry code msg retries base att out err.
               x \<noteq> MarkFailed now now_retry (job_id r) code msg retries base att out err"
    and nr: "\<forall>now retries. x = Retry now (job_id r) retries \<longrightarrow> state r = Completed"
    and r': "r' \<in> set (jobs (apply_op x s))" "job_id r' = job_id r"
  shows "r' = r"
proof (cases x)
  case (Enqueue now i cmd retries run_at prio)
  from row_enqueue [OF pk r r'(1) [unfolded Enqueue] r'(2)] show ?thesis .
next
  case (Claim now)
  from row_claim [OF pk r r'(1) [unfolded Claim] r'(2)] fin show ?thesis
    by (auto simp: claimable_def)
next
  case (MarkCompleted now i code out err)
  with nc have "job_id r \<noteq> i" by auto
  with row_mark_job_completed [OF pk r r'(1) [unfolded MarkCompleted apply_op.simps] r'(2)]
  show ?thesis by simp
next
  case (MarkFailed now now_retry i code msg retries base att out err)
  with nf have "job_id r \<noteq> i" by auto
  with row_mark_job_failed [OF pk r r'(1) [unfolded MarkFailed apply_op.simps] r'(2)]
  show ?thesis by simp
next
  case (Retry now i retries)
  with nr have "\<not> (job_id r = i \<and> state r = Dead)" by auto
  with row_retry_job [OF pk r r'(1) [unfolded Retry] r'(2)] show ?thesis by simp
next
  case (SetConfig key v)
  with r'(1) have "r' \<in> set (jobs s)" by (simp add: set_config_def)
  with distinct_ids_unique [of "jobs s" r r'] pk r r'(2) show ?thesis
    by (simp add: primary_key_def)
qed

lemma terminal_row_kept:
  assumes pk: "primary_key s" and r: "r \<in> set (jobs s)"
    and fin: "state r = Completed \<or> state r = Dead"
    and nc: "\<forall>now code out err. x \<noteq> MarkCompleted now (job_id r) code out err"
    and nf: "\<forall>now now_retry code msg retries base att out err.
               x \<noteq> MarkFailed now now_retry (job_id r) code msg retries base att out err"
    and nr: "\<forall>now retries. x = Retry now (job_id r) retries \<longrightarrow> state r = Completed"
  shows "r \<in> set (jobs (apply_op x s))
       \<and> (\<forall>r'\<in>set (jobs (apply_op x s)). job_id r' = job_id r \<longrightarrow> r' = r)"
proof -
  from r ids_kept [of s x] have "job_id r \<in> set (map job_id (jobs (apply_op x s)))" by auto
  then obtain r0 where r0: "r0 \<in> set (jobs (apply_op x s))" "job_id r0 = job_id r" by auto
  from terminal_row_same [OF pk r fin nc nf nr r0] r0(1)
  have "r \<in> set (jobs (apply_op x s))" by simp
  moreover have "\<forall>r'\<in>set (jobs (apply_op x s)). job_id r' = job_id r \<longrightarrow> r' = r"
    using terminal_row_same [OF pk r fin nc nf nr] by blast
  ultimately show ?thesis by blast
qed

lemma execute_job_as_op:
  "\<exists>x. committed s (execute_job now now_retry now2 now2_retry exc_text configured_base result job s)
          = apply_op x s
       \<and> ((\<exists>t code out err. x = MarkCompleted t (job_id job) code out err)
          \<or> (\<exists>t tr code msg retries base att out err.
                x = MarkFailed t tr (job_id job) code msg retries base att out err))"
proof (cases "success result")
  case True
  then have "committed s
      (execute_job now now_retry now2 now2_retry exc_text configured_base result job s)
      = apply_op (MarkCompleted now (job_id job) (exit_code result) (Some (output_str result))
          (error result)) s"
    by (simp add: execute_job_def Let_def committed_def)
  then show ?thesis by blast
next
  case False
  let ?b = "if configured_base \<le> 0 then 2 else configured_base"
  let ?msg = "if error result \<noteq> None \<and> error result \<noteq> Some [] then the (error result)
       else if output_str result \<noteq> [] then output_str result
       else literal ''Command failed with exit code '' @ str_int (exit_code result)"
  let ?first = "mark_job_failed now now_retry (job_id job) (exit_code result) ?msg
      (max_retries job) ?b (attempts job) (Some (output_str result)) (error result) s"
  show ?thesis
  proof (cases ?first)
    case (Inr s')
    with False have "committed s
        (execute_job now now_retry now2 now2_retry exc_text configured_base result job s)
        = apply_op (MarkFailed now now_retry (job_id job) (exit_code result) ?msg
            (max_retries job) ?b (attempts job) (Some (output_str result)) (error result)) s"
      by (simp add: execute_job_def Let_def committed_def)
    then show ?thesis by blast
  next
    case (Inl e)
    with False have "committed s
        (execute_job now now_retry now2 now2_retry exc_text configured_base result job s)
        = apply_op (MarkFailed now2 now2_retry (job_id job) 1 exc_text
            (max_retries job) ?b (attempts job) None (Some exc_text)) s"
      by (simp add: execute_job_def Let_def committed_def)
    then show ?thesis by blast
  qed
qed

lemma worker_round_terminal:
  assumes pk: "primary_key s" and r: "r \<in> set (jobs s)"
    and fin: "state r = Completed \<or> state r = Dead"
  shows "r \<in> set (jobs (worker_round now_claim now now_retry now2 now2_retry exc_text
                           configured_base result_of s))
       \<and> (\<forall>r'\<in>set (jobs (worker_round now_claim now now_retry now2 now2_retry exc_text
                           configured_base result_of s)).
            job_id r' = job_id r \<longrightarrow> r' = r)"
proof (cases "fst (claim_job now_claim s)")
  case None
  then have "claim_job now_claim s = (None, snd (claim_job now_claim s))"
    by (cases "claim_job now_claim s") simp
  from claim_job_no_job [OF this pk] None
  have "worker_round now_claim now now_retry now2 now2_retry exc_text configured_base result_of s
        = s"
    by (cases "claim_job now_claim s") (simp add: worker_round_def)
  moreover have "\<forall>r'\<in>set (jobs s). job_id r' = job_id r \<longrightarrow> r' = r"
    using distinct_ids_unique [of "jobs s" r] pk r by (simp add: primary_key_def)
  ultimately show ?thesis using r by simp
next
  case (Some job)
  define s1 where "s1 = snd (claim_job now_claim s)"
  from Some have cl: "claim_job now_claim s = (Some job, s1)"
    by (cases "claim_job now_claim s") (simp add: s1_def)
  have s1: "s1 = apply_op (Claim now_claim) s" by (simp add: s1_def)
  have kept: "r \<in> set (jobs s1) \<and> (\<forall>r'\<in>set (jobs s1). job_id r' = job_id r \<longrightarrow> r' = r)"
    unfolding s1 by (rule terminal_row_kept [OF pk r fin]) simp_all
  from claimed_job_in_store [OF cl pk] have job: "job \<in> set (jobs s1)" and pk1: "primary_key s1"
    by simp_all
  from claim_job_Some [OF cl pk] have "state job = Processing"
    by (auto simp: claim_set_def)
  with kept job fin have ne: "job_id job \<noteq> job_id r" by auto
  from execute_job_as_op [of s1 now now_retry now2 now2_retry exc_text configured_base
      "result_of (command job)" job]
  obtain x where x: "committed s1 (execute_job now now_retry now2 now2_retry exc_text
        configured_base (result_of (command job)) job s1) = apply_op x s1"
    and kind: "(\<exists>t code out err. x = MarkCompleted t (job_id job) code out err)
          \<or> (\<exists>t tr code msg retries base att out err.
                x = MarkFailed t tr (job_id job) code msg retries base att out err)"
    by blast
  have wr: "worker_round now_claim now now_retry now2 now2_retry exc_text configured_base
      result_of s = apply_op x s1"
    using cl x by (simp add: worker_round_def)
  from kept have r1: "r \<in> set (jobs s1)" by simp
  show ?thesis unfolding wr
    by (rule terminal_row_kept [OF pk1 r1 fin]) (use kind ne in auto)
qed

text \<open>
  A job is dead after its one attempt. \<^verbatim>\<open>mark_job_completed\<close> with its id, whose \<^verbatim>\<open>UPDATE\<close>
  has only \<^verbatim>\<open>WHERE id=?\<close>, makes it completed and sets \<^verbatim>\<open>updated_at\<close>.
\<close>

theorem completing_a_dead_job_counterexample:
  "map state (jobs (run_ops
      [Enqueue 1 ''j'' ''false'' (Some 1) None None, Claim 2,
       MarkFailed 3 4 ''j'' 1 [98] 1 2 1 None None] init_db)) = [Dead]
   \<and> map state (jobs (apply_op (MarkCompleted 5 ''j'' 0 (Some [111, 107]) None) (run_ops
      [Enqueue 1 ''j'' ''false'' (Some 1) None None, Claim 2,
       MarkFailed 3 4 ''j'' 1 [98] 1 2 1 None None] init_db))) = [Completed]
   \<and> map updated_at (jobs (apply_op (MarkCompleted 5 ''j'' 0 (Some [111, 107]) None) (run_ops
      [Enqueue 1 ''j'' ''false'' (Some 1) None None, Claim 2,
       MarkFailed 3 4 ''j'' 1 [98] 1 2 1 None None] init_db))) = [5]"
  by (simp add: store_defs)

text \<open>
  Claim C5, as the code has it. On a store with unique ids, a job that is \<open>Completed\<close> or
  \<open>Dead\<close> is still in the store, with every field as it was, after any operation other
  than \<^verbatim>\<open>mark_job_completed\<close> or \<^verbatim>\<open>mark_job_failed\<close> with the id of that job and other than a
  \<^verbatim>\<open>retry_job\<close> of it when it is \<open>Dead\<close> (a \<^verbatim>\<open>retry_job\<close> of a completed job changes
  nothing); and after any round of a worker, which marks only the job it has just
  claimed. The two marking methods update the row of the id they are given whatever its
  state.
\<close>

theorem terminal_job_unchanged:
  assumes "primary_key s" and "r \<in> set (jobs s)" and "state r = Completed \<or> state r = Dead"
  shows "((\<forall>now code out err. x \<noteq> MarkCompleted now (job_id r) code out err)
          \<and> (\<forall>now now_retry code msg retries base att out err.
               x \<noteq> MarkFailed now now_retry (job_id r) code msg retries base att out err)
          \<and> (\<forall>now retries. x = Retry now (job_id r) retries \<longrightarrow> state r = Completed)
          \<longrightarrow> r \<in> set (jobs (apply_op x s))
             \<and> (\<forall>r'\<in>set (jobs (apply_op x s)). job_id r' = job_id r \<longrightarrow> r' = r))
       \<and> r \<in> set (jobs (worker_round now_claim now now_retry now2 now2_retry exc_text
                           configured_base result_of s))
       \<and> (\<forall>r'\<in>set (jobs (worker_round now_claim now now_retry now2 now2_retry exc_text
                           configured_base result_of s)).
            job_id r' = job_id r \<longrightarrow> r' = r)"
  using terminal_row_kept [OF assms, of x]
    worker_round_terminal [OF assms, of now_claim now now_retry now2 now2_retry exc_text
      configured_base result_of]
  by blast

theorem terminal_job_unchanged_witness:
  "primary_key (run_ops
      [Enqueue 1 ''j'' ''false'' (Some 1) None None, Claim 2,
       MarkFailed 3 4 ''j'' 1 [98] 1 2 1 None None,
       Enqueue 5 ''k'' ''true'' None None None] init_db)
   \<and> map state (jobs (run_ops
      [Enqueue 1 ''j'' ''false'' (Some 1) None None, Claim 2,
       MarkFailed 3 4 ''j'' 1 [98] 1 2 1 None None,
       Enqueue 5 ''k'' ''true'' None None None] init_db)) = [Dead, Pending]
   \<and> map state (jobs (apply_op (Claim 6) (run_ops
      [Enqueue 1 ''j'' ''false'' (Some 1) None None, Claim 2,
       MarkFailed 3 4 ''j'' 1 [98] 1 2 1 None None,
       Enqueue 5 ''k'' ''true'' None None None] init_db))) = [Dead, Processing]
   \<and> hd (jobs (run_ops
      [Enqueue 1 ''j'' ''false'' (Some 1) None None, Claim 2,
       MarkFailed 3 4 ''j'' 1 [98] 1 2 1 None None,
       Enqueue 5 ''k'' ''true'' None None None] init_db))
      \<in> set (jobs (apply_op (Claim 6) (run_ops
      [Enqueue 1 ''j'' ''false'' (Some 1) None None, Claim 2,
       MarkFailed 3 4 ''j'' 1 [98] 1 2 1 None None,
       Enqueue 5 ''k'' ''true'' None None None] init_db)))
   \<and> hd (jobs (run_ops
      [Enqueue 1 ''j'' ''false'' (Some 1) None None, Claim 2,
       MarkFailed 3 4 ''j'' 1 [98] 1 2 1 None None,
       Enqueue 5 ''k'' ''true'' None None None] init_db))
      \<in> set (jobs (worker_round 6 7 8 9 10 [] 2
             (\<lambda>c. \<lparr>success = True, exit_code = 0, output_str = [111, 107], error = None\<rparr>)
             (run_ops
      [Enqueue 1 ''j'' ''false'' (Some 1) None None, Claim 2,
       MarkFailed 3 4 ''j'' 1 [98] 1 2 1 None None,
       Enqueue 5 ''k'' ''true'' None None None] init_db)))"
proof -
  let ?s = "run_ops
      [Enqueue 1 ''j'' ''false'' (Some 1) None None, Claim 2,
       MarkFailed 3 4 ''j'' 1 [98] 1 2 1 None None,
       Enqueue 5 ''k'' ''true'' None None None] init_db"
  have pk: "primary_key ?s" by (simp add: store_defs)
  have st: "map state (jobs ?s) = [Dead, Pending]" by (simp add: store_defs)
  have st': "map state (jobs (apply_op (Claim 6) ?s)) = [Dead, Processing]"
    by (simp add: store_defs)
  from st obtain a b where ab: "jobs ?s = [a, b]" by (auto simp: map_eq_Cons_conv)
  with st have mem: "hd (jobs ?s) \<in> set (jobs ?s)"
    and fin: "state (hd (jobs ?s)) = Completed \<or> state (hd (jobs ?s)) = Dead"
    by simp_all
  note inst = terminal_job_unchanged [OF pk mem fin, of "Claim 6" 6 7 8 9 10 "[]" 2
      "\<lambda>c. \<lparr>success = True, exit_code = 0, output_str = [111, 107], error = None\<rparr>"]
  from inst have "hd (jobs ?s) \<in> set (jobs (apply_op (Claim 6) ?s))" by simp
  moreover from inst have "hd (jobs ?s) \<in> set (jobs (worker_round 6 7 8 9 10 [] 2
             (\<lambda>c. \<lparr>success = True, exit_code = 0, output_str = [111, 107], error = None\<rparr>) ?s))"
    by simp
  ultimately show ?thesis using pk st st' by blast
qed

end
